theory Spec2Isabelle
  imports Main "HOL-Library.Sublist"
begin

section \<open>Strings as Python sees them\<close>

text \<open>
  A Python \<open>str\<close> is modelled as a \<open>string\<close> (a list of characters).  All the
  characters the scraper tests for are ASCII, so the model works character by character
  exactly as \<open>str.replace\<close>, \<open>str.strip\<close>, \<open>in\<close>, \<open>str.endswith\<close> do.
\<close>

text \<open>\<open>sub in s\<close> for two strings: \<open>sub\<close> occurs as a contiguous substring.\<close>

fun contains :: "string \<Rightarrow> string \<Rightarrow> bool" where
  "contains sub [] = (sub = [])"
| "contains sub (c # cs) = (prefix sub (c # cs) \<or> contains sub cs)"

text \<open>\<open>s.endswith(ext)\<close> for one suffix.\<close>

definition endswith :: "string \<Rightarrow> string \<Rightarrow> bool" where
  "endswith s ext = (length ext \<le> length s \<and> drop (length s - length ext) s = ext)"

text \<open>\<open>s.endswith((e1, e2, ...))\<close>: Python tries the members of the tuple in turn.\<close>

fun endswith_any :: "string \<Rightarrow> string list \<Rightarrow> bool" where
  "endswith_any s [] = False"
| "endswith_any s (e # es) = (if endswith s e then True else endswith_any s es)"

text \<open>
  \<open>s.lower()\<close>.  Only the 26 ASCII capitals are mapped; every other character is kept.
  (Python also lower-cases non-ASCII letters, but none of them becomes one of the ASCII
  characters of the extension list by itself, so extension matching is not affected.)
\<close>

definition lower_char :: "char \<Rightarrow> char" where
  "lower_char c =
     (case map_of (zip ''ABCDEFGHIJKLMNOPQRSTUVWXYZ'' ''abcdefghijklmnopqrstuvwxyz'') c of
        Some d \<Rightarrow> d
      | None \<Rightarrow> c)"

definition lower :: "string \<Rightarrow> string" where
  "lower s = map lower_char s"

text \<open>\<open>s.replace(old, new)\<close> for single characters.\<close>

definition replace_char :: "char \<Rightarrow> char \<Rightarrow> string \<Rightarrow> string" where
  "replace_char old new s = map (\<lambda>c. if c = old then new else c) s"

text \<open>\<open>s.strip(cs)\<close>: drop leading and trailing characters that occur in \<open>cs\<close>.\<close>

definition strip_chars :: "string \<Rightarrow> string \<Rightarrow> string" where
  "strip_chars cs s =
     rev (dropWhile (\<lambda>c. c \<in> set cs) (rev (dropWhile (\<lambda>c. c \<in> set cs) s)))"

text \<open>
  The ASCII characters that Python's \<open>str.isspace\<close> accepts (and the argument-less
  \<open>str.strip()\<close> removes): space, tab, line feed, vertical tab, form feed, carriage
  return and the four separators 0x1C to 0x1F.
\<close>

definition whitespace :: "char list" where
  "whitespace = [CHR '' '', CHR 0x09, CHR 0x0A, CHR 0x0B, CHR 0x0C, CHR 0x0D,
                 CHR 0x1C, CHR 0x1D, CHR 0x1E, CHR 0x1F]"

definition strip_ws :: "string \<Rightarrow> string" where
  "strip_ws s = strip_chars whitespace s"

text \<open>\<open>os.path.join(a, b)\<close> of \<open>posixpath\<close>, for two components.\<close>

definition path_join :: "string \<Rightarrow> string \<Rightarrow> string" where
  "path_join a b =
     (if prefix ''/'' b then b
      else if a = [] \<or> last a = CHR ''/'' then a @ b
      else a @ ''/'' @ b)"


section \<open>Filename sanitizer\<close>

text \<open>
  \<^verbatim>\<open>
  def _sanitize_filename(self, filename):
      invalid_chars = ['<', '>', ':', '"', '/', '\\', '|', '?', '*']
      for char in invalid_chars:
          filename = filename.replace(char, '_')
      filename = filename.strip('. ')
      if not filename:
          filename = "unnamed"
      return filename
  \<close>
\<close>

definition invalid_chars :: "char list" where
  "invalid_chars = [CHR ''<'', CHR ''>'', CHR '':'', CHR 0x22, CHR ''/'', CHR 0x5C,
                    CHR ''|'', CHR ''?'', CHR ''*'']"

definition sanitize_filename :: "string \<Rightarrow> string" where
  "sanitize_filename filename =
     (let replaced = foldl (\<lambda>s c. replace_char c (CHR ''_'') s) filename invalid_chars;
          stripped = strip_chars ''. '' replaced
      in if stripped = [] then ''unnamed'' else stripped)"

text \<open>The substitution that the replacement loop performs on one character.\<close>

definition subst_unsafe :: "char \<Rightarrow> char" where
  "subst_unsafe c = (if c \<in> set invalid_chars then CHR ''_'' else c)"


section \<open>Link classifier\<close>

text \<open>
  \<^verbatim>\<open>
  def _is_downloadable_link(self, url):
      if not url:
          return False
      if "/files/" in url and ("/download" in url or "?download=1" in url
                               or "?download_frd=1" in url):
          return True
      file_extensions = ['.pdf', '.doc', '.docx', '.ppt', '.pptx', '.xls', '.xlsx',
                         '.txt', '.zip', '.jpg', '.jpeg', '.png', '.gif', '.mp3',
                         '.mp4', '.mov', '.avi']
      for ext in file_extensions:
          if url.lower().endswith(ext) or f"{ext}?" in url.lower():
              return True
      return False
  \<close>
\<close>

definition file_extensions :: "string list" where
  "file_extensions = [''.pdf'', ''.doc'', ''.docx'', ''.ppt'', ''.pptx'', ''.xls'', ''.xlsx'',
                      ''.txt'', ''.zip'', ''.jpg'', ''.jpeg'', ''.png'', ''.gif'', ''.mp3'',
                      ''.mp4'', ''.mov'', ''.avi'']"

fun extension_loop :: "string list \<Rightarrow> string \<Rightarrow> bool" where
  "extension_loop [] url = False"
| "extension_loop (ext # exts) url =
     (if endswith (lower url) ext \<or> contains (ext @ ''?'') (lower url) then True
      else extension_loop exts url)"

definition is_downloadable_link :: "string \<Rightarrow> bool" where
  "is_downloadable_link url =
     (if url = [] then False
      else if contains ''/files/'' url \<and>
              (contains ''/download'' url \<or> contains ''?download=1'' url \<or>
               contains ''?download_frd=1'' url)
      then True
      else extension_loop file_extensions url)"

text \<open>
  The classifier as section 4.2 of the specification words it, for comparison with the
  code: the URL is cut at its first \<open>?\<close> into the path (the pre-query part) and the
  query, whose flags are separated by \<open>&\<close>.
\<close>

definition url_path :: "string \<Rightarrow> string" where
  "url_path url = takeWhile (\<lambda>c. c \<noteq> CHR ''?'') url"

definition url_query :: "string \<Rightarrow> string" where
  "url_query url = drop 1 (dropWhile (\<lambda>c. c \<noteq> CHR ''?'') url)"

fun split_on :: "char \<Rightarrow> string \<Rightarrow> string list" where
  "split_on d [] = [[]]"
| "split_on d (c # cs) =
     (if c = d then [] # split_on d cs
      else (case split_on d cs of [] \<Rightarrow> [[c]] | w # ws \<Rightarrow> (c # w) # ws))"

definition spec_isDownloadable :: "string \<Rightarrow> bool" where
  "spec_isDownloadable url =
     ((contains ''/files/'' (url_path url) \<and>
       (endswith (url_path url) ''/download'' \<or>
        ''download=1'' \<in> set (split_on (CHR ''&'') (url_query url)) \<or>
        ''download_frd=1'' \<in> set (split_on (CHR ''&'') (url_query url)))) \<or>
      endswith_any (lower (url_path url)) file_extensions)"


section \<open>Default extension at the download sites\<close>

text \<open>
  The same three lines stand before the call of \<open>_download_file\<close> in
  \<open>_process_direct_links\<close>, three times in \<open>_process_clickable_links\<close> and in
  \<open>_process_course_modules\<close>:
  \<^verbatim>\<open>
  safe_file_name = self._sanitize_filename(file_name)
  if not safe_file_name.endswith(('.pdf', '.doc', '.docx', '.ppt', '.pptx',
                                  '.xls', '.xlsx', '.txt', '.zip')):
      safe_file_name += '.pdf'  # Default extension if none is detected
  ... self._download_file(link_url, os.path.join(module_dir, safe_file_name))
  \<close>
  whereas \<open>_process_folder\<close> has
  \<^verbatim>\<open>
  safe_file_name = self._sanitize_filename(file_name)
  ...
  self._download_file(file_url, os.path.join(current_dir, safe_file_name))
  \<close>
\<close>

definition document_extensions :: "string list" where
  "document_extensions = [''.pdf'', ''.doc'', ''.docx'', ''.ppt'', ''.pptx'', ''.xls'',
                          ''.xlsx'', ''.txt'', ''.zip'']"

definition with_default_extension :: "string \<Rightarrow> string" where
  "with_default_extension safe_file_name =
     (if \<not> endswith_any safe_file_name document_extensions
      then safe_file_name @ ''.pdf''
      else safe_file_name)"

definition module_file_path :: "string \<Rightarrow> string \<Rightarrow> string" where
  "module_file_path module_dir file_name =
     path_join module_dir (with_default_extension (sanitize_filename file_name))"

definition folder_file_path :: "string \<Rightarrow> string \<Rightarrow> string" where
  "folder_file_path current_dir file_name =
     path_join current_dir (sanitize_filename file_name)"

section \<open>Exceptions, the browser, the transfer session and the file system\<close>

text \<open>
  The scraper distinguishes \<open>TimeoutException\<close> (a Selenium wait that ran out) from all other
  exceptions, which its \<open>except Exception\<close> handlers treat alike.
\<close>

datatype exn =
    TimeoutException
  | WebDriverException
  | RequestException
  | HTTPError
  | OSError
  | ValueError
  | TypeError
  | IndexError

text \<open>
  What \<open>_download_file\<close> and \<open>_save_file_with_progress\<close> read of a \<open>requests\<close> response:
  the status code, the outcome of \<open>int(response.headers.get('content-length', 0))\<close>, the
  chunks that \<open>iter_content\<close> yields and the exception, if any, that ends the stream
  after them.
\<close>

record response =
  status_code :: nat
  content_length :: "exn + int"
  chunks :: "string list"
  stream_error :: "exn option"

text \<open>A course as the discovery strategies build it: \<open>{"id": ..., "name": ..., "url": ...}\<close>.\<close>

record course =
  c_id :: string
  c_name :: string
  c_url :: string

text \<open>
  The calls that leave the program are recorded in a trace.  The events of a nested call of
  \<open>_process_folder\<close> or \<open>_download_file\<close> are kept inside one event of the caller,
  together with the arguments of the call and whether it returned normally (for a folder
  visit) or what it returned (for a download).
\<close>

datatype event =
    EvNav string
  | EvClick
  | EvListing
  | EvHttpGet string
  | EvOpen string
  | EvMkdir string
  | EvCall string
  | EvQuit
  | EvVisit string string "event list" bool
  | EvDownload "string option" string "event list" bool

text \<open>
  The state: the world outside the program (browser, portal, network), of which the model
  knows nothing; the files below the download directory, a map from paths to contents
  (a file of size 0 is mapped to the empty string); and the trace.
\<close>

record 'w state =
  world :: 'w
  files :: "string \<rightharpoonup> string"
  trace :: "event list"

text \<open>
  The environment gives the outcome of every call of the browser driver, of the transfer
  session and of the operating system, as a function of the world.  \<open>'e\<close> is the type of
  the element handles of the driver.  The last seven fields stand for parts of the
  scraper that are not modelled further: the login, the three course discovery
  strategies (each of which catches its own exceptions and returns a list), and the
  scans of \<open>_process_direct_links\<close>, \<open>_process_clickable_links\<close> and of the module
  loop of \<open>_process_course_modules\<close>, which may raise and may download files.
\<close>

record ('w, 'e) env =
  canvas_url :: string
  base_download_dir :: string
  driver_get :: "string \<Rightarrow> 'w \<Rightarrow> (exn + unit) \<times> 'w"
  driver_quit :: "'w \<Rightarrow> 'w"
  current_url :: "'w \<Rightarrow> (exn + string) \<times> 'w"
  wait_clickable :: "string \<Rightarrow> 'w \<Rightarrow> (exn + 'e) \<times> 'w"
  wait_presence :: "string \<Rightarrow> 'w \<Rightarrow> (exn + unit) \<times> 'w"
  find_elements :: "string \<Rightarrow> 'w \<Rightarrow> (exn + 'e list) \<times> 'w"
  find_element :: "'e \<Rightarrow> string \<Rightarrow> 'w \<Rightarrow> (exn + 'e) \<times> 'w"
  get_attribute :: "'e \<Rightarrow> string \<Rightarrow> 'w \<Rightarrow> (exn + string option) \<times> 'w"
  element_text :: "'e \<Rightarrow> 'w \<Rightarrow> (exn + string) \<times> 'w"
  element_click :: "'e \<Rightarrow> 'w \<Rightarrow> (exn + unit) \<times> 'w"
  session_get :: "string \<Rightarrow> 'w \<Rightarrow> (exn + response) \<times> 'w"
  open_fails :: "string \<Rightarrow> 'w \<Rightarrow> bool"
  makedirs_fails :: "string \<Rightarrow> 'w \<Rightarrow> bool"
  format_size_fails :: "int \<Rightarrow> bool"
  login :: "'w state \<Rightarrow> (exn + bool) \<times> 'w state"
  courses_from_dashboard :: "'w \<Rightarrow> course list \<times> 'w"
  courses_from_all_courses_table :: "'w \<Rightarrow> course list \<times> 'w"
  courses_from_list_view :: "'w \<Rightarrow> course list \<times> 'w"
  scan_direct_links :: "string \<Rightarrow> string \<Rightarrow> 'w state \<Rightarrow> (exn + bool) \<times> 'w state"
  scan_clickable_links ::
    "string \<Rightarrow> string \<Rightarrow> string \<Rightarrow> 'w state \<Rightarrow> (exn + bool) \<times> 'w state"
  scan_modules :: "string \<Rightarrow> 'w state \<Rightarrow> (exn + bool) \<times> 'w state"


subsection \<open>Statements that may raise\<close>

text \<open>
  A statement takes the state and gives back either an exception or a value, and the new
  state.  \<open>bnd\<close> is sequencing (an exception skips what follows), \<open>try_except\<close> is
  \<open>try: ... except Exception:\<close> and \<open>try_timeout\<close> is
  \<open>try: ... except TimeoutException:\<close>, which lets every other exception through.
\<close>

type_synonym ('w, 'a) prog = "'w state \<Rightarrow> (exn + 'a) \<times> 'w state"

definition ret :: "'a \<Rightarrow> ('w, 'a) prog" where
  "ret x st = (Inr x, st)"

definition raise :: "exn \<Rightarrow> ('w, 'a) prog" where
  "raise e st = (Inl e, st)"

definition bnd :: "('w, 'a) prog \<Rightarrow> ('a \<Rightarrow> ('w, 'b) prog) \<Rightarrow> ('w, 'b) prog" where
  "bnd m f st = (case m st of (Inl e, st') \<Rightarrow> (Inl e, st') | (Inr x, st') \<Rightarrow> f x st')"

definition try_except :: "('w, 'a) prog \<Rightarrow> (exn \<Rightarrow> ('w, 'a) prog) \<Rightarrow> ('w, 'a) prog" where
  "try_except m h st = (case m st of (Inl e, st') \<Rightarrow> h e st' | (Inr x, st') \<Rightarrow> (Inr x, st'))"

definition try_timeout :: "('w, 'a) prog \<Rightarrow> ('w, 'a) prog \<Rightarrow> ('w, 'a) prog" where
  "try_timeout m h = try_except m (\<lambda>e. if e = TimeoutException then h else raise e)"

definition emit :: "event \<Rightarrow> ('w, unit) prog" where
  "emit ev st = (Inr (), st\<lparr>trace := trace st @ [ev]\<rparr>)"

definition lift :: "('w \<Rightarrow> (exn + 'a) \<times> 'w) \<Rightarrow> ('w, 'a) prog" where
  "lift f st = (case f (world st) of (r, w') \<Rightarrow> (r, st\<lparr>world := w'\<rparr>))"

text \<open>\<open>self.driver.get(url)\<close>; the driver rejects \<open>None\<close> without loading anything.\<close>

definition nav :: "('w, 'e) env \<Rightarrow> string option \<Rightarrow> ('w, unit) prog" where
  "nav env url =
     (case url of
        None \<Rightarrow> raise WebDriverException
      | Some u \<Rightarrow> bnd (emit (EvNav u)) (\<lambda>_. lift (driver_get env u)))"

text \<open>\<open>self.session.get(url, stream=True)\<close>; \<open>requests\<close> rejects \<open>None\<close> before sending.\<close>

definition http_get :: "('w, 'e) env \<Rightarrow> string option \<Rightarrow> ('w, response) prog" where
  "http_get env url =
     (case url of
        None \<Rightarrow> raise RequestException
      | Some u \<Rightarrow> bnd (emit (EvHttpGet u)) (\<lambda>_. lift (session_get env u)))"

text \<open>\<open>response.raise_for_status()\<close> raises for the 4xx and 5xx codes.\<close>

definition raise_for_status :: "response \<Rightarrow> ('w, unit) prog" where
  "raise_for_status r =
     (if 400 \<le> status_code r \<and> status_code r < 600 then raise HTTPError else ret ())"

text \<open>\<open>open(file_path, "wb")\<close>: creates the file or truncates it, unless the call fails.\<close>

definition open_wb :: "('w, 'e) env \<Rightarrow> string \<Rightarrow> ('w, unit) prog" where
  "open_wb env file_path =
     bnd (emit (EvOpen file_path))
       (\<lambda>_ st. if open_fails env file_path (world st) then (Inl OSError, st)
               else (Inr (), st\<lparr>files := (files st)(file_path \<mapsto> [])\<rparr>))"

text \<open>\<open>if chunk: f.write(chunk)\<close> for every chunk of the stream.\<close>

fun write_chunks :: "string \<Rightarrow> string list \<Rightarrow> ('w, unit) prog" where
  "write_chunks file_path [] st = (Inr (), st)"
| "write_chunks file_path (chunk # rest) st =
     write_chunks file_path rest
       (if chunk = [] then st
        else st\<lparr>files := (files st)(file_path \<mapsto>
               (case files st file_path of None \<Rightarrow> chunk | Some old \<Rightarrow> old @ chunk))\<rparr>)"

text \<open>\<open>os.makedirs(path, exist_ok=True)\<close>.  Directories are not part of the state.\<close>

definition makedirs :: "('w, 'e) env \<Rightarrow> string \<Rightarrow> ('w, unit) prog" where
  "makedirs env path =
     bnd (emit (EvMkdir path))
       (\<lambda>_ st. if makedirs_fails env path (world st) then (Inl OSError, st) else (Inr (), st))"

text \<open>The events of a nested call are collected apart and wrapped into one event.\<close>

definition nested ::
  "(event list \<Rightarrow> (exn + 'a) \<Rightarrow> event) \<Rightarrow> ('w, 'a) prog \<Rightarrow> ('w, 'a) prog" where
  "nested wrap m st =
     (case m (st\<lparr>trace := []\<rparr>) of
        (r, st') \<Rightarrow> (r, st'\<lparr>trace := trace st @ [wrap (trace st') r]\<rparr>))"


section \<open>Download fallback chain\<close>

text \<open>
  \<^verbatim>\<open>
  def _save_file_with_progress(self, response, file_path):
      file_name = os.path.basename(file_path)
      file_size = int(response.headers.get('content-length', 0))
      progress = tqdm(total=file_size, unit='B', unit_scale=True, desc=file_name)
      with open(file_path, "wb") as f:
          for chunk in response.iter_content(chunk_size=8192):
              if chunk:
                  f.write(chunk)
                  progress.update(len(chunk))
      progress.close()
      logger.info(f"Downloaded: {file_name} ({self._format_size(file_size)})")
  \<close>
  The progress bar is left out.  \<open>_format_size\<close> indexes a five-element tuple with
  \<open>int(math.log(size_bytes, 1024))\<close> and so raises \<open>IndexError\<close> for sizes of about
  \<open>1024 ^ 5\<close> and more; as the bound depends on floating-point rounding, whether it raises
  is a field of the environment.
\<close>

definition save_file_with_progress ::
  "('w, 'e) env \<Rightarrow> response \<Rightarrow> string \<Rightarrow> ('w, unit) prog" where
  "save_file_with_progress env response file_path =
     bnd (case content_length response of Inl e \<Rightarrow> raise e | Inr n \<Rightarrow> ret n) (\<lambda>file_size.
     bnd (open_wb env file_path) (\<lambda>_.
     bnd (write_chunks file_path (chunks response)) (\<lambda>_.
     bnd (case stream_error response of Some e \<Rightarrow> raise e | None \<Rightarrow> ret ()) (\<lambda>_.
     if format_size_fails env file_size then raise IndexError else ret ()))))"

text \<open>
  \<^verbatim>\<open>
  def _download_file(self, file_url, file_path):
      file_name = os.path.basename(file_path)
      try:
          if self.skip_existing and os.path.exists(file_path):
              file_size = os.path.getsize(file_path)
              if file_size > 0:  # Only skip if the file has content
                  return True
          self.driver.get(file_url)
          try:
              download_button = WebDriverWait(self.driver, 15).until(
                  EC.element_to_be_clickable((By.CSS_SELECTOR, "a.icon-download")))
          except TimeoutException:
              try:
                  download_button = WebDriverWait(self.driver, 10).until(
                      EC.element_to_be_clickable((By.CSS_SELECTOR,
                          ".file_download_btn, .file-download-btn, a[download]")))
              except TimeoutException:
                  response = self.session.get(file_url, stream=True)
                  if response.status_code == 200:
                      self._save_file_with_progress(response, file_path)
                      return True
                  else:
                      return False
          download_url = download_button.get_attribute("href")
          response = self.session.get(download_url, stream=True)
          response.raise_for_status()
          self._save_file_with_progress(response, file_path)
          return True
      except Exception as e:
          # Create an empty placeholder file to indicate we tried to download it
          try:
              with open(file_path, "wb") as f:
                  pass
          except Exception as write_error:
              logger.error(...)
          return False
  \<close>
  Logging, the delays and the screenshots (which catch their own exceptions) are left
  out.  \<open>find_download_button\<close> is the pair of waits: it yields the button, or \<open>None\<close>
  when both waits time out, which is the case in which the source goes on to the direct
  transfer; an exception raised there reaches the outer handler like any other.
\<close>

definition find_download_button :: "('w, 'e) env \<Rightarrow> ('w, 'e option) prog" where
  "find_download_button env =
     try_timeout
       (bnd (lift (wait_clickable env ''a.icon-download'')) (\<lambda>b. ret (Some b)))
       (try_timeout
          (bnd (lift (wait_clickable env
                  ''.file_download_btn, .file-download-btn, a[download]''))
             (\<lambda>b. ret (Some b)))
          (ret None))"

definition direct_download ::
  "('w, 'e) env \<Rightarrow> string option \<Rightarrow> string \<Rightarrow> ('w, bool) prog" where
  "direct_download env file_url file_path =
     bnd (http_get env file_url) (\<lambda>response.
       if status_code response = 200
       then bnd (save_file_with_progress env response file_path) (\<lambda>_. ret True)
       else ret False)"

definition button_download :: "('w, 'e) env \<Rightarrow> 'e \<Rightarrow> string \<Rightarrow> ('w, bool) prog" where
  "button_download env download_button file_path =
     bnd (lift (get_attribute env download_button ''href'')) (\<lambda>download_url.
     bnd (http_get env download_url) (\<lambda>response.
     bnd (raise_for_status response) (\<lambda>_.
     bnd (save_file_with_progress env response file_path) (\<lambda>_. ret True))))"

definition fetch :: "('w, 'e) env \<Rightarrow> string option \<Rightarrow> string \<Rightarrow> ('w, bool) prog" where
  "fetch env file_url file_path =
     bnd (nav env file_url) (\<lambda>_.
     bnd (find_download_button env) (\<lambda>button.
       case button of
         None \<Rightarrow> direct_download env file_url file_path
       | Some download_button \<Rightarrow> button_download env download_button file_path))"

definition skips :: "bool \<Rightarrow> string \<Rightarrow> 'w state \<Rightarrow> bool" where
  "skips skip_existing file_path st =
     (skip_existing \<and>
      (case files st file_path of None \<Rightarrow> False | Some content \<Rightarrow> 0 < length content))"

definition download_attempt ::
  "('w, 'e) env \<Rightarrow> bool \<Rightarrow> string option \<Rightarrow> string \<Rightarrow> ('w, bool) prog" where
  "download_attempt env skip_existing file_url file_path st =
     (if skips skip_existing file_path st then (Inr True, st)
      else fetch env file_url file_path st)"

definition download_file ::
  "('w, 'e) env \<Rightarrow> bool \<Rightarrow> string option \<Rightarrow> string \<Rightarrow> 'w state \<Rightarrow> bool \<times> 'w state" where
  "download_file env skip_existing file_url file_path st =
     (case download_attempt env skip_existing file_url file_path st of
        (Inr result, st') \<Rightarrow> (result, st')
      | (Inl e, st') \<Rightarrow> (False, snd (open_wb env file_path st')))"

section \<open>Folder traversal\<close>

text \<open>
  \<^verbatim>\<open>
  def _process_folder(self, current_dir, folder_url):
      self.driver.get(folder_url)
      try:
          WebDriverWait(self.driver, 15).until(
              EC.presence_of_element_located((By.CLASS_NAME, "ef-directory")))
      except TimeoutException:
          return
      items = self.driver.find_elements(By.CLASS_NAME, "ef-item-row")
      # First, process all subfolders
      for item in items:
          try:
              item_classes = item.get_attribute("class")
              if "ef-item-folder" in item_classes:
                  folder_name_element = item.find_element(By.CLASS_NAME, "ef-name-col__text")
                  folder_name = folder_name_element.text.strip()
                  safe_folder_name = self._sanitize_filename(folder_name)
                  subfolder_path = os.path.join(current_dir, safe_folder_name)
                  os.makedirs(subfolder_path, exist_ok=True)
                  folder_name_element.click()
                  subfolder_url = self.driver.current_url
                  self._process_folder(subfolder_path, subfolder_url)
                  self.driver.get(folder_url)
                  WebDriverWait(self.driver, 15).until(
                      EC.presence_of_element_located((By.CLASS_NAME, "ef-directory")))
                  items = self.driver.find_elements(By.CLASS_NAME, "ef-item-row")
          except Exception as e:
              logger.error(f"Error processing subfolder: {str(e)}")
      # Then, process all files
      for item in items:
          try:
              item_classes = item.get_attribute("class")
              if "ef-item-folder" not in item_classes:
                  file_name_element = item.find_element(By.CLASS_NAME, "ef-name-col__text")
                  file_name = file_name_element.text.strip()
                  safe_file_name = self._sanitize_filename(file_name)
                  file_link = item.find_element(By.CSS_SELECTOR, "a.ef-name-col__link")
                  file_url = file_link.get_attribute("href")
                  self._download_file(file_url, os.path.join(current_dir, safe_file_name))
          except Exception as e:
              logger.error(f"Error processing file: {str(e)}")
  \<close>
  (logging, delays, screenshots and the two counters, which are only logged, left out).
  The first loop runs over the list that \<open>items\<close> named when the loop began; the
  assignment to \<open>items\<close> in its body changes what the second loop runs over.

  The recursion follows the folders of the portal and need not end, so the model
  counts the depth down and returns \<open>None\<close> when the count is used up.
\<close>

type_synonym ('w, 'a) progo = "'w state \<Rightarrow> ((exn + 'a) \<times> 'w state) option"

definition total :: "('w, 'a) prog \<Rightarrow> ('w, 'a) progo" where
  "total m st = Some (m st)"

definition bndo :: "('w, 'a) progo \<Rightarrow> ('a \<Rightarrow> ('w, 'b) progo) \<Rightarrow> ('w, 'b) progo" where
  "bndo m f st =
     (case m st of
        None \<Rightarrow> None
      | Some (Inl e, st') \<Rightarrow> Some (Inl e, st')
      | Some (Inr x, st') \<Rightarrow> f x st')"

definition nestedo ::
  "(event list \<Rightarrow> (exn + 'a) \<Rightarrow> event) \<Rightarrow> ('w, 'a) progo \<Rightarrow> ('w, 'a) progo" where
  "nestedo wrap m st =
     (case m (st\<lparr>trace := []\<rparr>) of
        None \<Rightarrow> None
      | Some (r, st') \<Rightarrow> Some (r, st'\<lparr>trace := trace st @ [wrap (trace st') r]\<rparr>))"

text \<open>\<open>"ef-item-folder" in item_classes\<close>; \<open>in None\<close> is a \<open>TypeError\<close>.\<close>

definition is_folder_row :: "('w, 'e) env \<Rightarrow> 'e \<Rightarrow> ('w, bool) prog" where
  "is_folder_row env item =
     bnd (lift (get_attribute env item ''class'')) (\<lambda>item_classes.
       case item_classes of
         None \<Rightarrow> raise TypeError
       | Some cs \<Rightarrow> ret (contains ''ef-item-folder'' cs))"

definition list_items :: "('w, 'e) env \<Rightarrow> ('w, 'e list) prog" where
  "list_items env = bnd (emit EvListing) (\<lambda>_. lift (find_elements env ''ef-item-row''))"

definition click :: "('w, 'e) env \<Rightarrow> 'e \<Rightarrow> ('w, unit) prog" where
  "click env el = bnd (emit EvClick) (\<lambda>_. lift (element_click env el))"

definition visit_event :: "string \<Rightarrow> string \<Rightarrow> event list \<Rightarrow> (exn + unit) \<Rightarrow> event" where
  "visit_event dir url evs r = EvVisit dir url evs (case r of Inl e \<Rightarrow> False | Inr _ \<Rightarrow> True)"

definition download_event ::
  "string option \<Rightarrow> string \<Rightarrow> event list \<Rightarrow> (exn + bool) \<Rightarrow> event" where
  "download_event url path evs r =
     EvDownload url path evs (case r of Inl e \<Rightarrow> False | Inr b \<Rightarrow> b)"

text \<open>
  The body of the \<open>try\<close> of the first loop for one item.  It yields the refreshed
  listing when the item was a folder and everything went well, \<open>None\<close> when the item is
  not a folder.  \<open>recurse\<close> is the recursive call.
\<close>

definition subfolder_body ::
  "('w, 'e) env \<Rightarrow> (string \<Rightarrow> string \<Rightarrow> ('w, unit) progo) \<Rightarrow> string \<Rightarrow> string \<Rightarrow> 'e \<Rightarrow>
   ('w, 'e list option) progo" where
  "subfolder_body env recurse current_dir folder_url item =
     bndo (total (is_folder_row env item)) (\<lambda>is_folder.
       if is_folder then
         bndo (total (lift (find_element env item ''ef-name-col__text''))) (\<lambda>folder_name_element.
         bndo (total (lift (element_text env folder_name_element))) (\<lambda>text.
         let folder_name = strip_ws text;
             safe_folder_name = sanitize_filename folder_name;
             subfolder_path = path_join current_dir safe_folder_name
         in
         bndo (total (makedirs env subfolder_path)) (\<lambda>_.
         bndo (total (click env folder_name_element)) (\<lambda>_.
         bndo (total (lift (current_url env))) (\<lambda>subfolder_url.
         bndo (nestedo (visit_event subfolder_path subfolder_url)
                 (recurse subfolder_path subfolder_url)) (\<lambda>_.
         bndo (total (nav env (Some folder_url))) (\<lambda>_.
         bndo (total (lift (wait_presence env ''ef-directory''))) (\<lambda>_.
         bndo (total (list_items env)) (\<lambda>items. total (ret (Some items)))))))))))
       else total (ret None))"

text \<open>
  The first loop.  \<open>todo\<close> is what is left of the list the loop runs over, \<open>items\<close> the
  current value of the variable \<open>items\<close>, which is returned at the end.
\<close>

fun subfolder_loop ::
  "('w, 'e) env \<Rightarrow> (string \<Rightarrow> string \<Rightarrow> ('w, unit) progo) \<Rightarrow> string \<Rightarrow> string \<Rightarrow>
   'e list \<Rightarrow> 'e list \<Rightarrow> 'w state \<Rightarrow> ('e list \<times> 'w state) option" where
  "subfolder_loop env recurse current_dir folder_url [] items st = Some (items, st)"
| "subfolder_loop env recurse current_dir folder_url (item # todo) items st =
     (case subfolder_body env recurse current_dir folder_url item st of
        None \<Rightarrow> None
      | Some (Inr (Some items'), st') \<Rightarrow>
          subfolder_loop env recurse current_dir folder_url todo items' st'
      | Some (Inr None, st') \<Rightarrow>
          subfolder_loop env recurse current_dir folder_url todo items st'
      | Some (Inl e, st') \<Rightarrow>
          subfolder_loop env recurse current_dir folder_url todo items st')"

text \<open>The body of the \<open>try\<close> of the second loop for one item, and the loop.\<close>

definition file_body :: "('w, 'e) env \<Rightarrow> bool \<Rightarrow> string \<Rightarrow> 'e \<Rightarrow> ('w, unit) prog" where
  "file_body env skip_existing current_dir item =
     bnd (is_folder_row env item) (\<lambda>is_folder.
       if \<not> is_folder then
         bnd (lift (find_element env item ''ef-name-col__text'')) (\<lambda>file_name_element.
         bnd (lift (element_text env file_name_element)) (\<lambda>text.
         bnd (lift (find_element env item ''a.ef-name-col__link'')) (\<lambda>file_link.
         bnd (lift (get_attribute env file_link ''href'')) (\<lambda>file_url.
         bnd (nested (download_event file_url (folder_file_path current_dir (strip_ws text)))
                (\<lambda>st. case download_file env skip_existing file_url
                               (folder_file_path current_dir (strip_ws text)) st of
                         (result, st') \<Rightarrow> (Inr result, st')))
           (\<lambda>_. ret ())))))
       else ret ())"

fun file_loop :: "('w, 'e) env \<Rightarrow> bool \<Rightarrow> string \<Rightarrow> 'e list \<Rightarrow> 'w state \<Rightarrow> 'w state" where
  "file_loop env skip_existing current_dir [] st = st"
| "file_loop env skip_existing current_dir (item # items) st =
     file_loop env skip_existing current_dir items
       (snd (file_body env skip_existing current_dir item st))"

primrec process_folder ::
  "nat \<Rightarrow> ('w, 'e) env \<Rightarrow> bool \<Rightarrow> string \<Rightarrow> string \<Rightarrow> ('w, unit) progo" where
  "process_folder 0 env skip_existing current_dir folder_url = (\<lambda>st. None)"
| "process_folder (Suc depth) env skip_existing current_dir folder_url =
     bndo (total (nav env (Some folder_url))) (\<lambda>_.
     bndo (total (try_timeout
                    (bnd (lift (wait_presence env ''ef-directory'')) (\<lambda>_. ret True))
                    (ret False))) (\<lambda>loaded.
       if \<not> loaded then total (ret ())
       else
         bndo (total (list_items env)) (\<lambda>items st.
           case subfolder_loop env (process_folder depth env skip_existing)
                  current_dir folder_url items items st of
             None \<Rightarrow> None
           | Some (items', st') \<Rightarrow>
               Some (Inr (), file_loop env skip_existing current_dir items' st'))))"


section \<open>Course discovery and the run\<close>

text \<open>
  \<^verbatim>\<open>
  def get_courses(self):
      try:
          self.driver.get(f"{self.canvas_url}/courses")
          courses = self._get_courses_from_dashboard()
          if not courses:
              courses = self._get_courses_from_all_courses_table()
          if courses:
              return courses
          else:
              return self._get_courses_from_list_view()
      except Exception as e:
          return []
  \<close>
\<close>

definition call :: "string \<Rightarrow> ('w \<Rightarrow> 'a \<times> 'w) \<Rightarrow> ('w, 'a) prog" where
  "call name f =
     bnd (emit (EvCall name)) (\<lambda>_. lift (\<lambda>w. case f w of (x, w') \<Rightarrow> (Inr x, w')))"

definition get_courses :: "('w, 'e) env \<Rightarrow> 'w state \<Rightarrow> course list \<times> 'w state" where
  "get_courses env st =
     (case
        bnd (nav env (Some (canvas_url env @ ''/courses''))) (\<lambda>_.
        bnd (call ''_get_courses_from_dashboard'' (courses_from_dashboard env)) (\<lambda>courses.
        bnd (if courses = []
             then call ''_get_courses_from_all_courses_table''
                    (courses_from_all_courses_table env)
             else ret courses) (\<lambda>courses.
        if courses \<noteq> [] then ret courses
        else call ''_get_courses_from_list_view'' (courses_from_list_view env)))) st
      of
        (Inr courses, st') \<Rightarrow> (courses, st')
      | (Inl e, st') \<Rightarrow> ([], st'))"

text \<open>
  \<^verbatim>\<open>
  def process_course(self, course):
      course_id = course["id"]
      course_name = course["name"]
      safe_course_name = self._sanitize_filename(course_name)
      course_dir = os.path.join(self.base_download_dir, safe_course_name)
      os.makedirs(course_dir, exist_ok=True)
      homepage_files_found = self._process_course_homepage(course_id, course_name, course_dir)
      modules_files_found = self._process_course_modules(course_id, course_name, course_dir)
      files_section_found = self._process_course_files_section(course_id, course_name, course_dir)

  def _process_course_homepage(self, course_id, course_name, course_dir):
      homepage_url = f"{self.canvas_url}/courses/{course_id}"
      self.driver.get(homepage_url)
      direct_files_found = self._process_direct_links(course_dir, "Homepage_Direct")
      indirect_files_found = self._process_clickable_links(course_dir, "Homepage", homepage_url)
      return direct_files_found or indirect_files_found

  def _process_course_modules(self, course_id, course_name, course_dir):
      modules_url = f"{self.canvas_url}/courses/{course_id}/modules"
      self.driver.get(modules_url)
      ...  # the scan of the modules

  def _process_course_files_section(self, course_id, course_name, course_dir):
      files_url = f"{self.canvas_url}/courses/{course_id}/files"
      self.driver.get(files_url)
      try:
          WebDriverWait(self.driver, 15).until(
              EC.presence_of_element_located((By.CLASS_NAME, "ef-item-row")))
          files_dir = os.path.join(course_dir, "Files")
          os.makedirs(files_dir, exist_ok=True)
          self._process_folder(files_dir, files_url)
          return True
      except TimeoutException:
          return False
  \<close>
\<close>

definition process_course_homepage ::
  "('w, 'e) env \<Rightarrow> string \<Rightarrow> string \<Rightarrow> ('w, bool) prog" where
  "process_course_homepage env course_id course_dir =
     (let homepage_url = canvas_url env @ ''/courses/'' @ course_id in
      bnd (nav env (Some homepage_url)) (\<lambda>_.
      bnd (scan_direct_links env course_dir ''Homepage_Direct'') (\<lambda>direct_files_found.
      bnd (scan_clickable_links env course_dir ''Homepage'' homepage_url)
        (\<lambda>indirect_files_found. ret (direct_files_found \<or> indirect_files_found)))))"

definition process_course_modules ::
  "('w, 'e) env \<Rightarrow> string \<Rightarrow> string \<Rightarrow> ('w, bool) prog" where
  "process_course_modules env course_id course_dir =
     bnd (nav env (Some (canvas_url env @ ''/courses/'' @ course_id @ ''/modules'')))
       (\<lambda>_. scan_modules env course_dir)"

definition process_course_files_section ::
  "nat \<Rightarrow> ('w, 'e) env \<Rightarrow> bool \<Rightarrow> string \<Rightarrow> string \<Rightarrow> ('w, bool) progo" where
  "process_course_files_section depth env skip_existing course_id course_dir =
     (let files_url = canvas_url env @ ''/courses/'' @ course_id @ ''/files'' in
      bndo (total (nav env (Some files_url))) (\<lambda>_ st.
        case bndo (total (lift (wait_presence env ''ef-item-row''))) (\<lambda>_.
             bndo (total (makedirs env (path_join course_dir ''Files''))) (\<lambda>_.
             bndo (nestedo (visit_event (path_join course_dir ''Files'') files_url)
                     (process_folder depth env skip_existing
                        (path_join course_dir ''Files'') files_url))
               (\<lambda>_. total (ret True)))) st
        of
          None \<Rightarrow> None
        | Some (Inl e, st') \<Rightarrow>
            if e = TimeoutException then Some (Inr False, st') else Some (Inl e, st')
        | Some (Inr b, st') \<Rightarrow> Some (Inr b, st')))"

definition process_course ::
  "nat \<Rightarrow> ('w, 'e) env \<Rightarrow> bool \<Rightarrow> course \<Rightarrow> ('w, unit) progo" where
  "process_course depth env skip_existing c =
     (let safe_course_name = sanitize_filename (c_name c);
          course_dir = path_join (base_download_dir env) safe_course_name
      in
      bndo (total (makedirs env course_dir)) (\<lambda>_.
      bndo (total (process_course_homepage env (c_id c) course_dir)) (\<lambda>_.
      bndo (total (process_course_modules env (c_id c) course_dir)) (\<lambda>_.
      bndo (process_course_files_section depth env skip_existing (c_id c) course_dir)
        (\<lambda>_. total (ret ()))))))"

text \<open>
  \<^verbatim>\<open>
  def run(self):
      try:
          os.makedirs(self.base_download_dir, exist_ok=True)
          if not self.login():
              return False
          courses = self.get_courses()
          if not courses:
              return False
          for i, course in enumerate(courses, 1):
              self.process_course(course)
          return True
      except Exception as e:
          return False
      finally:
          if self.driver:
              self.driver.quit()
  \<close>
  \<open>process_courses\<close> is the \<open>for\<close> loop; an exception leaves it, as in the source.
\<close>

fun process_courses ::
  "nat \<Rightarrow> ('w, 'e) env \<Rightarrow> bool \<Rightarrow> course list \<Rightarrow> ('w, unit) progo" where
  "process_courses depth env skip_existing [] = total (ret ())"
| "process_courses depth env skip_existing (c # cs) =
     bndo (total (emit (EvCall (''process_course '' @ c_id c)))) (\<lambda>_.
     bndo (process_course depth env skip_existing c) (\<lambda>_.
     process_courses depth env skip_existing cs))"

definition run :: "nat \<Rightarrow> ('w, 'e) env \<Rightarrow> bool \<Rightarrow> 'w state \<Rightarrow> (bool \<times> 'w state) option" where
  "run depth env skip_existing st =
     (case
        bndo (total (makedirs env (base_download_dir env))) (\<lambda>_.
        bndo (total (login env)) (\<lambda>logged_in.
          if \<not> logged_in then total (ret False)
          else
            bndo (total (\<lambda>st. case get_courses env st of (cs, st') \<Rightarrow> (Inr cs, st')))
              (\<lambda>courses.
                if courses = [] then total (ret False)
                else bndo (process_courses depth env skip_existing courses)
                       (\<lambda>_. total (ret True))))) st
      of
        None \<Rightarrow> None
      | Some (r, st') \<Rightarrow>
          Some (case r of Inl e \<Rightarrow> False | Inr b \<Rightarrow> b,
                st'\<lparr>world := driver_quit env (world st'), trace := trace st' @ [EvQuit]\<rparr>))"

section \<open>A portal for concrete runs\<close>

text \<open>
  A small executable environment, on which the model is run.  A portal is described by
  its folder pages (rows with the folder marker, the displayed name and the target of
  the name link), the pages whose loading raises, the file pages that show a download
  button (with the target of the button), the responses of the transfer session, and the
  outcomes of the parts of the scraper that the environment stands for.  The world is
  the current page and the number of page loads so far.  An element handle remembers
  the page load it was found in; as with Selenium, where a handle found before a page
  load raises \<open>StaleElementReferenceException\<close> (a \<open>WebDriverException\<close>) afterwards,
  it can be used only until the next page load.
\<close>

record fworld =
  page :: string
  loads :: nat

datatype felem = Row nat nat | NameText nat nat | NameLink nat nat | Button nat

record portal =
  folders :: "(string \<times> (bool \<times> string \<times> string) list) list"
  broken :: "string list"
  buttons :: "(string \<times> string) list"
  responses :: "(string \<times> response) list"
  unwritable :: "string list"
  dashboard :: "course list"
  all_courses_table :: "course list"
  list_view :: "course list"

definition rows_of :: "portal \<Rightarrow> fworld \<Rightarrow> (bool \<times> string \<times> string) list" where
  "rows_of p w = (case map_of (folders p) (page w) of None \<Rightarrow> [] | Some rs \<Rightarrow> rs)"

definition fresh_row ::
  "portal \<Rightarrow> fworld \<Rightarrow> nat \<Rightarrow> nat \<Rightarrow> (bool \<times> string \<times> string) option" where
  "fresh_row p w g i =
     (if g = loads w \<and> i < length (rows_of p w) then Some (rows_of p w ! i) else None)"

definition load :: "string \<Rightarrow> fworld \<Rightarrow> fworld" where
  "load u w = \<lparr>page = u, loads = Suc (loads w)\<rparr>"

definition portal_get :: "portal \<Rightarrow> string \<Rightarrow> fworld \<Rightarrow> (exn + unit) \<times> fworld" where
  "portal_get p u w =
     (if u \<in> set (broken p) then (Inl WebDriverException, w) else (Inr (), load u w))"

definition portal_wait_clickable ::
  "portal \<Rightarrow> string \<Rightarrow> fworld \<Rightarrow> (exn + felem) \<times> fworld" where
  "portal_wait_clickable p selector w =
     (if selector = ''a.icon-download'' \<and> map_of (buttons p) (page w) \<noteq> None
      then (Inr (Button (loads w)), w)
      else (Inl TimeoutException, w))"

definition portal_wait_presence ::
  "portal \<Rightarrow> string \<Rightarrow> fworld \<Rightarrow> (exn + unit) \<times> fworld" where
  "portal_wait_presence p marker w =
     (if map_of (folders p) (page w) \<noteq> None \<and>
         (marker = ''ef-directory'' \<or> rows_of p w \<noteq> [])
      then (Inr (), w)
      else (Inl TimeoutException, w))"

definition portal_find_elements ::
  "portal \<Rightarrow> string \<Rightarrow> fworld \<Rightarrow> (exn + felem list) \<times> fworld" where
  "portal_find_elements p cls w =
     (if cls = ''ef-item-row''
      then (Inr (map (Row (loads w)) [0 ..< length (rows_of p w)]), w)
      else (Inr [], w))"

definition portal_find_element ::
  "portal \<Rightarrow> felem \<Rightarrow> string \<Rightarrow> fworld \<Rightarrow> (exn + felem) \<times> fworld" where
  "portal_find_element p el selector w =
     (case el of
        Row g i \<Rightarrow>
          (case fresh_row p w g i of
             None \<Rightarrow> (Inl WebDriverException, w)
           | Some r \<Rightarrow>
               if selector = ''ef-name-col__text'' then (Inr (NameText g i), w)
               else if selector = ''a.ef-name-col__link'' then (Inr (NameLink g i), w)
               else (Inl WebDriverException, w))
      | _ \<Rightarrow> (Inl WebDriverException, w))"

definition portal_get_attribute ::
  "portal \<Rightarrow> felem \<Rightarrow> string \<Rightarrow> fworld \<Rightarrow> (exn + string option) \<times> fworld" where
  "portal_get_attribute p el name w =
     (case el of
        Row g i \<Rightarrow>
          (case fresh_row p w g i of
             None \<Rightarrow> (Inl WebDriverException, w)
           | Some (is_folder, _, _) \<Rightarrow>
               if name = ''class''
               then (Inr (Some (if is_folder then ''ef-item-row ef-item-folder''
                                else ''ef-item-row'')), w)
               else (Inr None, w))
      | NameLink g i \<Rightarrow>
          (case fresh_row p w g i of
             None \<Rightarrow> (Inl WebDriverException, w)
           | Some (_, _, target) \<Rightarrow>
               if name = ''href'' then (Inr (Some target), w) else (Inr None, w))
      | Button g \<Rightarrow>
          (if g = loads w \<and> name = ''href''
           then (Inr (map_of (buttons p) (page w)), w)
           else (Inl WebDriverException, w))
      | NameText g i \<Rightarrow> (Inr None, w))"

definition portal_text :: "portal \<Rightarrow> felem \<Rightarrow> fworld \<Rightarrow> (exn + string) \<times> fworld" where
  "portal_text p el w =
     (case el of
        NameText g i \<Rightarrow>
          (case fresh_row p w g i of
             None \<Rightarrow> (Inl WebDriverException, w)
           | Some (_, name, _) \<Rightarrow> (Inr name, w))
      | _ \<Rightarrow> (Inr [], w))"

definition portal_click :: "portal \<Rightarrow> felem \<Rightarrow> fworld \<Rightarrow> (exn + unit) \<times> fworld" where
  "portal_click p el w =
     (case el of
        NameText g i \<Rightarrow>
          (case fresh_row p w g i of
             None \<Rightarrow> (Inl WebDriverException, w)
           | Some (_, _, target) \<Rightarrow> (Inr (), load target w))
      | _ \<Rightarrow> (Inl WebDriverException, w))"

definition portal_session_get ::
  "portal \<Rightarrow> string \<Rightarrow> fworld \<Rightarrow> (exn + response) \<times> fworld" where
  "portal_session_get p u w =
     (case map_of (responses p) u of
        None \<Rightarrow> (Inl RequestException, w)
      | Some r \<Rightarrow> (Inr r, w))"

definition portal_env :: "portal \<Rightarrow> (fworld, felem) env" where
  "portal_env p =
     \<lparr>canvas_url = ''https://c.edu'',
      base_download_dir = ''dl'',
      driver_get = portal_get p,
      driver_quit = (\<lambda>w. w),
      current_url = (\<lambda>w. (Inr (page w), w)),
      wait_clickable = portal_wait_clickable p,
      wait_presence = portal_wait_presence p,
      find_elements = portal_find_elements p,
      find_element = portal_find_element p,
      get_attribute = portal_get_attribute p,
      element_text = portal_text p,
      element_click = portal_click p,
      session_get = portal_session_get p,
      open_fails = (\<lambda>path w. path \<in> set (unwritable p)),
      makedirs_fails = (\<lambda>path w. path \<in> set (unwritable p)),
      format_size_fails = (\<lambda>n. 1024 ^ 5 \<le> n),
      login = (\<lambda>st. (Inr True, st)),
      courses_from_dashboard = (\<lambda>w. (dashboard p, w)),
      courses_from_all_courses_table = (\<lambda>w. (all_courses_table p, load ''https://c.edu/courses/all_courses'' w)),
      courses_from_list_view = (\<lambda>w. (list_view p, w)),
      scan_direct_links = (\<lambda>course_dir subfolder st. (Inr False, st)),
      scan_clickable_links = (\<lambda>course_dir subfolder return_url st. (Inr False, st)),
      scan_modules = (\<lambda>course_dir st. (Inr False, st))\<rparr>"

definition ok_response :: "string \<Rightarrow> response" where
  "ok_response body =
     \<lparr>status_code = 200, content_length = Inr (int (length body)), chunks = [body],
      stream_error = None\<rparr>"

definition not_found :: response where
  "not_found = \<lparr>status_code = 404, content_length = Inr 0, chunks = [], stream_error = None\<rparr>"

definition empty_portal :: portal where
  "empty_portal =
     \<lparr>folders = [], broken = [], buttons = [], responses = [], unwritable = [],
      dashboard = [], all_courses_table = [], list_view = []\<rparr>"

definition start :: "(string \<times> string) list \<Rightarrow> fworld state" where
  "start fs = \<lparr>world = \<lparr>page = ''about:blank'', loads = 0\<rparr>, files = map_of fs, trace = []\<rparr>"

text \<open>
  The portals of the concrete runs: a file page without download button whose direct
  transfer is answered with 404; the same file behind a download button, also with a
  local path that cannot be opened for writing; the folder tree of section 8 of the
  specification (a root with the subfolder \<open>A\<close>, which holds \<open>x.pdf\<close>, and the file
  \<open>y.doc\<close>); that tree with a second subfolder \<open>B\<close>; that tree with a subfolder page
  that fails to load; and two courses found by the table strategy, without and with a
  course homepage that fails to load.
\<close>

definition portal_direct_404 :: portal where
  "portal_direct_404 = empty_portal\<lparr>responses := [(''https://c.edu/files/7'', not_found)]\<rparr>"

definition portal_button_404 :: portal where
  "portal_button_404 =
     empty_portal\<lparr>buttons := [(''https://c.edu/files/7'', ''https://c.edu/files/7/download'')],
                  responses := [(''https://c.edu/files/7/download'', not_found)]\<rparr>"

definition portal_unwritable :: portal where
  "portal_unwritable = portal_button_404\<lparr>unwritable := [''dl/x.pdf'']\<rparr>"

definition portal_tree :: portal where
  "portal_tree =
     empty_portal\<lparr>
       folders := [(''https://c.edu/courses/1/files'',
                     [(True, ''A'', ''https://c.edu/courses/1/files/folder/A''),
                      (False, ''y.doc'', ''https://c.edu/files/2'')]),
                   (''https://c.edu/courses/1/files/folder/A'',
                     [(False, ''x.pdf'', ''https://c.edu/files/1'')])],
       responses := [(''https://c.edu/files/1'', ok_response ''xx''),
                     (''https://c.edu/files/2'', ok_response ''yyy'')]\<rparr>"



definition two_courses :: "course list" where
  "two_courses =
     [\<lparr>c_id = ''1'', c_name = ''Algebra'', c_url = ''https://c.edu/courses/1''\<rparr>,
      \<lparr>c_id = ''2'', c_name = ''Logic'', c_url = ''https://c.edu/courses/2''\<rparr>]"

definition portal_two_courses :: portal where
  "portal_two_courses = empty_portal\<lparr>all_courses_table := two_courses\<rparr>"

definition portal_broken_course :: portal where
  "portal_broken_course = portal_two_courses\<lparr>broken := [''https://c.edu/courses/1'']\<rparr>"

section \<open>Traces of statements\<close>

text \<open>
  A statement \<open>grows\<close> the trace when it only appends events to it; \<open>emits P\<close> says
  moreover that every appended event satisfies \<open>P\<close>.
\<close>

definition emits :: "(event \<Rightarrow> bool) \<Rightarrow> ('w state \<Rightarrow> 'a \<times> 'w state) \<Rightarrow> bool" where
  "emits P m = (\<forall>st. \<exists>evs. trace (snd (m st)) = trace st @ evs \<and> list_all P evs)"









section \<open>Properties of the string helpers\<close>

lemma foldl_replace: "foldl (\<lambda>s c. replace_char c u s) s cs = map (\<lambda>x. if x \<in> set cs then u else x) s"
  by (induction cs arbitrary: s) (auto simp: replace_char_def)

lemma replaced_eq: "foldl (\<lambda>s c. replace_char c (CHR ''_'') s) s invalid_chars = map subst_unsafe s"
  unfolding foldl_replace subst_unsafe_def by simp

lemma rev_split: "xs = rev (dropWhile P (rev xs)) @ rev (takeWhile P (rev xs))"
  by (metis rev_append rev_rev_ident takeWhile_dropWhile_id)

lemma strip_split:
  "dropWhile (\<lambda>c. c \<in> set cs) s =
     strip_chars cs s @ rev (takeWhile (\<lambda>c. c \<in> set cs) (rev (dropWhile (\<lambda>c. c \<in> set cs) s)))"
  unfolding strip_chars_def by (rule rev_split)

lemma strip_decomp: "\<exists>p q. s = p @ strip_chars cs s @ q \<and> set p \<subseteq> set cs \<and> set q \<subseteq> set cs"
proof -
  let ?P = "\<lambda>c. c \<in> set cs"
  let ?t = "dropWhile ?P s"
  let ?q = "rev (takeWhile ?P (rev ?t))"
  have 1: "s = takeWhile ?P s @ ?t" by simp
  have 3: "set (takeWhile ?P s) \<subseteq> set cs" using set_takeWhileD by fastforce
  have 4: "set ?q \<subseteq> set cs" using set_takeWhileD by fastforce
  from 1 strip_split[of cs s] have "s = takeWhile ?P s @ strip_chars cs s @ ?q" by simp
  with 3 4 show ?thesis by blast
qed

lemma strip_last: "strip_chars cs s \<noteq> [] \<Longrightarrow> last (strip_chars cs s) \<notin> set cs"
  unfolding strip_chars_def
  by (metis (mono_tags, lifting) hd_dropWhile last_rev rev_is_Nil_conv)

lemma strip_hd: "strip_chars cs s \<noteq> [] \<Longrightarrow> hd (strip_chars cs s) \<notin> set cs"
proof -
  assume ne: "strip_chars cs s \<noteq> []"
  let ?P = "\<lambda>c. c \<in> set cs"
  let ?t = "dropWhile ?P s"
  have 2: "?t = strip_chars cs s @ rev (takeWhile ?P (rev ?t))" by (rule strip_split)
  with ne have "hd ?t = hd (strip_chars cs s)" by (metis hd_append2)
  moreover have "?t \<noteq> []" using 2 ne by (metis append_is_Nil_conv)
  ultimately show ?thesis using hd_dropWhile[of ?P s] by simp
qed

lemma strip_set: "set (strip_chars cs s) \<subseteq> set s"
proof -
  obtain p q where "s = p @ strip_chars cs s @ q" using strip_decomp by blast
  then have "set s = set p \<union> set (strip_chars cs s) \<union> set q" by (metis set_append Un_assoc)
  then show ?thesis by blast
qed

lemma subst_unsafe_safe: "subst_unsafe c \<notin> set invalid_chars"
  by (simp add: subst_unsafe_def invalid_chars_def)

lemma sanitize_eq:
  "sanitize_filename s =
     (if strip_chars ''. '' (map subst_unsafe s) = [] then ''unnamed''
      else strip_chars ''. '' (map subst_unsafe s))"
  by (simp add: sanitize_filename_def replaced_eq Let_def)

lemma unnamed_safe: "set ''unnamed'' \<inter> set invalid_chars = {}"
  by (simp add: invalid_chars_def)

lemma sanitize_no_unsafe_chars: "set (sanitize_filename s) \<inter> set invalid_chars = {}"
proof (cases "strip_chars ''. '' (map subst_unsafe s) = []")
  case True
  then show ?thesis using unnamed_safe by (simp add: sanitize_eq)
next
  case False
  have "set (strip_chars ''. '' (map subst_unsafe s)) \<subseteq> subst_unsafe ` set s"
    using strip_set[of "''. ''" "map subst_unsafe s"] by simp
  then have "set (strip_chars ''. '' (map subst_unsafe s)) \<inter> set invalid_chars = {}"
    using subst_unsafe_safe by blast
  with False show ?thesis by (simp add: sanitize_eq)
qed

lemma sanitize_edges:
  "sanitize_filename s \<noteq> [] \<and> hd (sanitize_filename s) \<notin> set ''. '' \<and>
   last (sanitize_filename s) \<notin> set ''. ''"
proof (cases "strip_chars ''. '' (map subst_unsafe s) = []")
  case True
  then have "sanitize_filename s = ''unnamed''" by (simp add: sanitize_eq)
  then show ?thesis by simp
next
  case False
  then have "sanitize_filename s = strip_chars ''. '' (map subst_unsafe s)"
    by (simp add: sanitize_eq)
  with False strip_hd[of "''. ''" "map subst_unsafe s"] strip_last[of "''. ''" "map subst_unsafe s"]
  show ?thesis by simp
qed

lemma sanitize_decomp:
  "\<exists>p r q. map subst_unsafe s = p @ r @ q \<and> set p \<subseteq> set ''. '' \<and> set q \<subseteq> set ''. '' \<and>
     sanitize_filename s = (if r = [] then ''unnamed'' else r)"
proof -
  obtain p q where "map subst_unsafe s = p @ strip_chars ''. '' (map subst_unsafe s) @ q"
    "set p \<subseteq> set ''. ''" "set q \<subseteq> set ''. ''"
    using strip_decomp[of "map subst_unsafe s" "''. ''"] by blast
  then show ?thesis using sanitize_eq[of s] by blast
qed


lemma all_dots_unnamed: "set s \<subseteq> set ''. '' \<Longrightarrow> sanitize_filename s = ''unnamed''"
proof -
  assume a: "set s \<subseteq> set ''. ''"
  have "map subst_unsafe s = s"
    using a by (induction s) (auto simp: subst_unsafe_def invalid_chars_def)
  moreover have d: "dropWhile (\<lambda>c. c \<in> set ''. '') s = []" using a by auto
  have "strip_chars ''. '' s = []"
    by (simp only: strip_chars_def d rev.simps dropWhile.simps)
  ultimately show ?thesis by (simp add: sanitize_eq)
qed

lemma all_unsafe_underscores:
  "s \<noteq> [] \<Longrightarrow> set s \<subseteq> set invalid_chars \<Longrightarrow>
   sanitize_filename s = replicate (length s) (CHR ''_'')"
proof -
  assume ne: "s \<noteq> []" and a: "set s \<subseteq> set invalid_chars"
  have m: "map subst_unsafe s = replicate (length s) (CHR ''_'')"
    using a by (induction s) (auto simp: subst_unsafe_def)
  have "strip_chars ''. '' (replicate n (CHR ''_'')) = replicate n (CHR ''_'')" for n
    by (cases n) (simp_all add: strip_chars_def replicate_append_same)
  with m ne show ?thesis by (simp add: sanitize_eq)
qed

lemma contains_sublist: "contains sub s \<longleftrightarrow> sublist sub s"
  by (induction s) (auto simp: sublist_Cons_right)

lemma endswith_suffix: "endswith s ext \<longleftrightarrow> suffix ext s"
proof
  assume "endswith s ext"
  then have "s = take (length s - length ext) s @ ext"
    by (metis append_take_drop_id endswith_def)
  then show "suffix ext s" by (metis suffixI)
next
  assume "suffix ext s"
  then obtain zs where "s = zs @ ext" by (auto simp: suffix_def)
  then show "endswith s ext" by (simp add: endswith_def)
qed

lemma endswith_any_iff: "endswith_any s es \<longleftrightarrow> (\<exists>e\<in>set es. suffix e s)"
  by (induction es) (auto simp: endswith_suffix)

lemma extension_loop_iff:
  "extension_loop exts url \<longleftrightarrow>
     (\<exists>ext\<in>set exts. suffix ext (lower url) \<or> sublist (ext @ ''?'') (lower url))"
  by (induction exts) (auto simp: endswith_suffix contains_sublist)

lemma file_extensions_nonempty: "ext \<in> set file_extensions \<Longrightarrow> ext \<noteq> []"
  by (auto simp: file_extensions_def)

lemma classifier_iff:
  "is_downloadable_link url \<longleftrightarrow>
     (sublist ''/files/'' url \<and>
        (sublist ''/download'' url \<or> sublist ''?download=1'' url \<or>
         sublist ''?download_frd=1'' url)) \<or>
     (\<exists>ext\<in>set file_extensions. suffix ext (lower url) \<or> sublist (ext @ ''?'') (lower url))"
proof (cases "url = []")
  case True
  then show ?thesis
    using file_extensions_nonempty by (auto simp: is_downloadable_link_def lower_def)
next
  case False
  then show ?thesis
    unfolding is_downloadable_link_def extension_loop_iff contains_sublist by auto
qed

lemma url_split: "url = url_path url \<or> (\<exists>q. url = url_path url @ CHR ''?'' # q)"
proof -
  let ?d = "dropWhile (\<lambda>c. c \<noteq> CHR ''?'') url"
  have u: "url = url_path url @ ?d" by (simp add: url_path_def)
  show ?thesis
  proof (cases ?d)
    case Nil
    with u show ?thesis by simp
  next
    case (Cons c q)
    then have "c = CHR ''?''" using hd_dropWhile[of "\<lambda>c. c \<noteq> CHR ''?''" url] by auto
    with u Cons show ?thesis by metis
  qed
qed

lemma lower_char_qmark: "lower_char (CHR ''?'') = CHR ''?''"
  by (simp add: lower_char_def)

lemma prequery_ext:
  assumes "ext \<in> set file_extensions" "suffix ext (lower (url_path url))"
  shows "is_downloadable_link url"
proof -
  from assms(2) obtain zs where z: "lower (url_path url) = zs @ ext" by (auto simp: suffix_def)
  from url_split[of url] show ?thesis
  proof
    assume "url = url_path url"
    then have "suffix ext (lower url)" using assms(2) by simp
    with assms(1) show ?thesis unfolding classifier_iff by blast
  next
    assume "\<exists>q. url = url_path url @ CHR ''?'' # q"
    then obtain q where q: "url = url_path url @ CHR ''?'' # q" by blast
    have "lower url = lower (url_path url) @ CHR ''?'' # lower q"
      by (subst q) (simp add: lower_def lower_char_qmark)
    then have "lower url = zs @ (ext @ ''?'') @ lower q" using z by simp
    then have "sublist (ext @ ''?'') (lower url)" unfolding sublist_def by blast
    with assms(1) show ?thesis unfolding classifier_iff by blast
  qed
qed


lemma sanitize_not_absolute: "\<not> prefix ''/'' (sanitize_filename s)"
proof
  assume "prefix ''/'' (sanitize_filename s)"
  then have "CHR ''/'' \<in> set (sanitize_filename s)" by (auto simp: prefix_def)
  moreover have "CHR ''/'' \<in> set invalid_chars" by (simp add: invalid_chars_def)
  ultimately show False using sanitize_no_unsafe_chars[of s] by blast
qed

lemma path_join_relative:
  "\<not> prefix ''/'' b \<Longrightarrow>
   path_join a b = a @ (if a = [] \<or> last a = CHR ''/'' then [] else ''/'') @ b"
  by (simp add: path_join_def)

lemma prefix_slash_append: "b \<noteq> [] \<Longrightarrow> prefix ''/'' (b @ c) \<longleftrightarrow> prefix ''/'' b"
  by (cases b) simp_all

lemma lower_document_extension: "e \<in> set document_extensions \<Longrightarrow> lower e = e"
  by (auto simp: document_extensions_def lower_def lower_char_def)

lemma document_suffix_lower:
  assumes "e \<in> set document_extensions" and "suffix e s"
  shows "suffix e (lower s)"
proof -
  from assms(2) obtain zs where "s = zs @ e" by (auto simp: suffix_def)
  then have "lower s = lower zs @ lower e" by (simp add: lower_def)
  with lower_document_extension[OF assms(1)] show ?thesis by (simp add: suffix_def)
qed

lemma document_extensions_allowed: "set document_extensions \<subseteq> set file_extensions"
  by (simp add: document_extensions_def file_extensions_def)


section \<open>The sanitizer (claims C7 and C8)\<close>

text \<open>
  C7, as stated, fails on leading and trailing whitespace: \<open>strip('. ')\<close> removes
  periods and the space character only, so a tab at the edge of a name stays.
\<close>

theorem sanitize_keeps_tab_counterexample:
  "sanitize_filename [CHR 0x09, CHR ''a''] = [CHR 0x09, CHR ''a''] \<and>
   hd (sanitize_filename [CHR 0x09, CHR ''a'']) \<in> set whitespace"
  by (simp add: sanitize_filename_def invalid_chars_def replace_char_def strip_chars_def
      whitespace_def)

text \<open>
  C7 (amended): \<open>sanitize_filename\<close> is total (a HOL function defined without any
  partiality); its result never contains a character of the unsafe set
  \<open>< > : " / \ | ? *\<close>; the result is obtained from the input, with every unsafe
  character replaced by an underscore, by cutting off a prefix and a suffix made of
  periods and space characters only; what is left neither starts nor ends with a
  period or a space, and is replaced by \<open>unnamed\<close> when nothing is left.  For example
  \<open>A/B:C*?.pdf\<close> becomes \<open>A_B_C__.pdf\<close>.
\<close>

theorem sanitize_filename_safe:
  "set (sanitize_filename s) \<inter> set invalid_chars = {} \<and>
   sanitize_filename s \<noteq> [] \<and>
   hd (sanitize_filename s) \<notin> {CHR ''.'', CHR '' ''} \<and>
   last (sanitize_filename s) \<notin> {CHR ''.'', CHR '' ''} \<and>
   (\<exists>p r q. map subst_unsafe s = p @ r @ q \<and>
      set p \<subseteq> {CHR ''.'', CHR '' ''} \<and> set q \<subseteq> {CHR ''.'', CHR '' ''} \<and>
      sanitize_filename s = (if r = [] then ''unnamed'' else r)) \<and>
   sanitize_filename ''A/B:C*?.pdf'' = ''A_B_C__.pdf''"
proof -
  have "sanitize_filename ''A/B:C*?.pdf'' = ''A_B_C__.pdf''"
    by (simp add: sanitize_filename_def invalid_chars_def replace_char_def strip_chars_def)
  then show ?thesis
    using sanitize_no_unsafe_chars[of s] sanitize_edges[of s] sanitize_decomp[of s]
    by simp
qed

theorem sanitize_filename_safe_witness:
  "set (sanitize_filename '' .a<b. '') \<inter> set invalid_chars = {} \<and>
   sanitize_filename '' .a<b. '' = ''a_b''"
proof -
  have "sanitize_filename '' .a<b. '' = ''a_b''"
    by (simp add: sanitize_filename_def invalid_chars_def replace_char_def strip_chars_def)
  then show ?thesis using sanitize_filename_safe[of "'' .a<b. ''"] by simp
qed

text \<open>
  C8, as stated, fails: a name made of unsafe characters only is turned into
  underscores, which are neither stripped nor replaced by the placeholder.
\<close>

theorem sanitize_all_unsafe_counterexample:
  "set ''/'' \<subseteq> set invalid_chars \<and> sanitize_filename ''/'' = ''_'' \<and>
   sanitize_filename ''/'' \<noteq> ''unnamed''"
  by (simp add: sanitize_filename_def invalid_chars_def replace_char_def strip_chars_def)

text \<open>
  C8 (amended): for every input that is empty or consists entirely of periods and space
  characters, \<open>sanitize_filename\<close> returns the placeholder \<open>unnamed\<close>; a non-empty
  input that consists entirely of characters from the unsafe set is returned as as many
  underscores.
\<close>

theorem sanitize_placeholder:
  "(set s \<subseteq> {CHR ''.'', CHR '' ''} \<longrightarrow> sanitize_filename s = ''unnamed'') \<and>
   (s \<noteq> [] \<and> set s \<subseteq> set invalid_chars \<longrightarrow>
      sanitize_filename s = replicate (length s) (CHR ''_''))"
  using all_dots_unnamed[of s] all_unsafe_underscores[of s] by simp

theorem sanitize_placeholder_witness:
  "set ''. .'' \<subseteq> {CHR ''.'', CHR '' ''} \<and> sanitize_filename ''. .'' = ''unnamed'' \<and>
   ''?*'' \<noteq> [] \<and> set ''?*'' \<subseteq> set invalid_chars \<and> sanitize_filename ''?*'' = ''__''"
proof -
  have 1: "set ''. .'' \<subseteq> {CHR ''.'', CHR '' ''}" by simp
  have 2: "''?*'' \<noteq> [] \<and> set ''?*'' \<subseteq> set invalid_chars" by (simp add: invalid_chars_def)
  have 3: "replicate (length ''?*'') (CHR ''_'') = ''__''" by (simp add: numeral_2_eq_2)
  show ?thesis
    using 1 2 3 sanitize_placeholder[of "''. .''"] sanitize_placeholder[of "''?*''"]
    by simp
qed


section \<open>The link classifier (claim C3)\<close>

text \<open>
  C3, as stated, fails in both directions.  A \<open>download=1\<close> flag that is not the first
  query parameter is not recognised by the code, although the URL has a files segment
  and carries the flag; and \<open>/download\<close> is looked for anywhere in the URL, so the
  listing page of a folder called \<open>downloads\<close> is classified as downloadable although
  \<open>/download\<close> is not the suffix of its path.
\<close>

theorem classifier_counterexample:
  "spec_isDownloadable ''https://c.edu/courses/5/files/42?wrap=1&download=1'' \<and>
   \<not> is_downloadable_link ''https://c.edu/courses/5/files/42?wrap=1&download=1'' \<and>
   \<not> spec_isDownloadable ''https://c.edu/courses/5/files/folder/downloads'' \<and>
   is_downloadable_link ''https://c.edu/courses/5/files/folder/downloads''"
  by code_simp

text \<open>
  C3 (amended): \<open>is_downloadable_link\<close> is a function of the URL string alone and is
  true exactly when the URL contains the substring \<open>/files/\<close> together with one of the
  substrings \<open>/download\<close>, \<open>?download=1\<close>, \<open>?download_frd=1\<close> anywhere in it, or when
  the lower-cased URL ends with an extension of the allow-list or contains such an
  extension immediately followed by \<open>?\<close>.  In particular every URL whose part before
  the first \<open>?\<close> ends, case-insensitively, with an allow-listed extension is accepted,
  with or without a query string; \<open>.../files/42/download?verifier=abc\<close> is accepted and
  \<open>.../courses/5/assignments/9\<close> is not.
\<close>

theorem is_downloadable_link_exact:
  "(is_downloadable_link url \<longleftrightarrow>
     (sublist ''/files/'' url \<and>
        (sublist ''/download'' url \<or> sublist ''?download=1'' url \<or>
         sublist ''?download_frd=1'' url)) \<or>
     (\<exists>ext\<in>set file_extensions.
        suffix ext (lower url) \<or> sublist (ext @ ''?'') (lower url))) \<and>
   ((\<exists>ext\<in>set file_extensions. suffix ext (lower (url_path url))) \<longrightarrow>
      is_downloadable_link url) \<and>
   is_downloadable_link ''https://c.edu/courses/5/files/42/download?verifier=abc'' \<and>
   \<not> is_downloadable_link ''https://c.edu/courses/5/assignments/9''"
proof -
  have a: "is_downloadable_link ''https://c.edu/courses/5/files/42/download?verifier=abc''"
    by code_simp
  have b: "\<not> is_downloadable_link ''https://c.edu/courses/5/assignments/9''"
    by code_simp
  have c: "(\<exists>ext\<in>set file_extensions. suffix ext (lower (url_path url))) \<longrightarrow>
      is_downloadable_link url"
    using prequery_ext by blast
  from a b c classifier_iff[of url] show ?thesis by blast
qed

theorem is_downloadable_link_exact_witness:
  "(\<exists>ext\<in>set file_extensions. suffix ext (lower (url_path ''https://c.edu/a/Notes.PDF?x=1''))) \<and>
   is_downloadable_link ''https://c.edu/a/Notes.PDF?x=1''"
proof -
  have p: "lower (url_path ''https://c.edu/a/Notes.PDF?x=1'') = ''https://c.edu/a/notes.pdf''"
    by code_simp
  have "suffix ''.pdf'' (''https://c.edu/a/notes'' @ ''.pdf'')" by (rule suffixI) simp
  then have s: "suffix ''.pdf'' (lower (url_path ''https://c.edu/a/Notes.PDF?x=1''))"
    by (simp add: p)
  have "''.pdf'' \<in> set file_extensions" by (simp add: file_extensions_def)
  with s have h: "\<exists>ext\<in>set file_extensions.
      suffix ext (lower (url_path ''https://c.edu/a/Notes.PDF?x=1''))" by blast
  with is_downloadable_link_exact[of "''https://c.edu/a/Notes.PDF?x=1''"]
  show ?thesis by blast
qed


section \<open>The default extension (claim C9)\<close>

text \<open>
  C9, as stated, fails.  The download site of the folder traversal appends nothing to a
  name without extension: the rows of a Files listing carry the names of real files,
  and the local path there is the directory joined with the sanitized name.  The other
  sites test their own list of nine extensions, case-sensitively, and not the
  classifier's list, so that a name with an allow-listed media extension is not left
  unchanged there, although the comment at these sites speaks of a default for a name
  in which no extension is detected.
\<close>

theorem default_extension_counterexample:
  "folder_file_path ''Files'' ''notes'' = ''Files/notes'' \<and>
   \<not> endswith_any ''notes'' file_extensions \<and>
   module_file_path ''Week1'' ''photo.jpg'' = ''Week1/photo.jpg.pdf'' \<and>
   endswith_any ''photo.jpg'' file_extensions"
  by (simp add: folder_file_path_def module_file_path_def with_default_extension_def
      path_join_def sanitize_filename_def invalid_chars_def replace_char_def strip_chars_def
      file_extensions_def document_extensions_def endswith_def)

text \<open>
  C9 (amended): at the download sites of \<open>_process_direct_links\<close>,
  \<open>_process_clickable_links\<close> and \<open>_process_course_modules\<close> a sanitized name that ends
  (case-sensitively) with one of the nine document extensions \<open>.pdf .doc .docx .ppt
  .pptx .xls .xlsx .txt .zip\<close>, all of them members of the classifier's allow-list, is
  the local name as it is, and a sanitized name that ends with no extension of the
  allow-list, in whatever case, is the local name with \<open>.pdf\<close> appended.  The download
  site of \<open>_process_folder\<close> appends nothing to any name: its local path is the
  directory, a separator where the directory does not end with one, and the sanitized
  name.  Nothing is said of a name at the first three sites that carries an allow-listed
  extension other than these nine, or one of the nine in another case.
\<close>

theorem default_extension_sites:
  "set document_extensions \<subseteq> set file_extensions \<and>
   ((\<exists>e\<in>set document_extensions. suffix e (sanitize_filename name)) \<longrightarrow>
      module_file_path dir name = folder_file_path dir name) \<and>
   (\<not> (\<exists>e\<in>set file_extensions. suffix e (lower (sanitize_filename name))) \<longrightarrow>
      module_file_path dir name = folder_file_path dir name @ ''.pdf'') \<and>
   folder_file_path dir name =
     dir @ (if dir = [] \<or> last dir = CHR ''/'' then [] else ''/'') @ sanitize_filename name"
proof -
  let ?s = "sanitize_filename name"
  have ne: "?s \<noteq> []" using sanitize_edges[of name] by simp
  have rel: "\<not> prefix ''/'' ?s" by (rule sanitize_not_absolute)
  have rel': "\<not> prefix ''/'' (?s @ ''.pdf'')" using ne rel by (simp add: prefix_slash_append)
  have f: "folder_file_path dir name =
      dir @ (if dir = [] \<or> last dir = CHR ''/'' then [] else ''/'') @ ?s"
    unfolding folder_file_path_def by (rule path_join_relative[OF rel])
  have 1: "(\<exists>e\<in>set document_extensions. suffix e ?s) \<longrightarrow>
      module_file_path dir name = folder_file_path dir name"
    by (simp add: module_file_path_def folder_file_path_def with_default_extension_def
        endswith_any_iff)
  have 2: "\<not> (\<exists>e\<in>set file_extensions. suffix e (lower ?s)) \<longrightarrow>
      module_file_path dir name = folder_file_path dir name @ ''.pdf''"
  proof
    assume h: "\<not> (\<exists>e\<in>set file_extensions. suffix e (lower ?s))"
    have "\<not> endswith_any ?s document_extensions"
      using h document_suffix_lower document_extensions_allowed
      by (auto simp: endswith_any_iff)
    then have "module_file_path dir name = path_join dir (?s @ ''.pdf'')"
      by (simp add: module_file_path_def with_default_extension_def)
    also have "\<dots> = dir @ (if dir = [] \<or> last dir = CHR ''/'' then [] else ''/'') @ ?s @ ''.pdf''"
      by (rule path_join_relative[OF rel'])
    finally show "module_file_path dir name = folder_file_path dir name @ ''.pdf''"
      using f by simp
  qed
  from document_extensions_allowed 1 2 f show ?thesis by blast
qed

theorem default_extension_sites_witness:
  "(\<exists>e\<in>set document_extensions. suffix e (sanitize_filename ''a.docx'')) \<and>
   module_file_path ''Week1'' ''a.docx'' = ''Week1/a.docx'' \<and>
   \<not> (\<exists>e\<in>set file_extensions. suffix e (lower (sanitize_filename ''Lecture 1''))) \<and>
   module_file_path ''Week1'' ''Lecture 1'' = ''Week1/Lecture 1.pdf'' \<and>
   folder_file_path ''Week1'' ''Lecture 1'' = ''Week1/Lecture 1''"
proof -
  have sa: "sanitize_filename ''a.docx'' = ''a.docx''" by code_simp
  have sl: "sanitize_filename ''Lecture 1'' = ''Lecture 1''" by code_simp
  have "endswith_any (sanitize_filename ''a.docx'') document_extensions" by code_simp
  then have a: "\<exists>e\<in>set document_extensions. suffix e (sanitize_filename ''a.docx'')"
    by (simp only: endswith_any_iff)
  have "\<not> endswith_any (lower (sanitize_filename ''Lecture 1'')) file_extensions" by code_simp
  then have b: "\<not> (\<exists>e\<in>set file_extensions. suffix e (lower (sanitize_filename ''Lecture 1'')))"
    unfolding endswith_any_iff .
  from a b default_extension_sites[of "''a.docx''" "''Week1''"]
    default_extension_sites[of "''Lecture 1''" "''Week1''"]
  show ?thesis by (simp add: sa sl)
qed


section \<open>Properties of the statements\<close>

lemma emitsI:
  "(\<And>st. \<exists>evs. trace (snd (m st)) = trace st @ evs \<and> list_all P evs) \<Longrightarrow> emits P m"
  by (simp add: emits_def)

lemma emitsD: "emits P m \<Longrightarrow> \<exists>evs. trace (snd (m st)) = trace st @ evs \<and> list_all P evs"
  by (simp add: emits_def)

lemma emits_ret: "emits P (ret x)"
  by (simp add: emits_def ret_def)

lemma emits_raise: "emits P (raise e)"
  by (simp add: emits_def raise_def)

lemma emits_emit: "P ev \<Longrightarrow> emits P (emit ev)"
  by (simp add: emits_def emit_def)

lemma emits_lift: "emits P (lift f)"
  by (simp add: emits_def lift_def split: prod.splits)

lemma emits_bnd:
  assumes "emits P m" and "\<And>x. emits P (f x)"
  shows "emits P (bnd m f)"
proof (rule emitsI)
  fix st
  obtain r st1 where m: "m st = (r, st1)" by (cases "m st")
  from emitsD[OF assms(1), of st] m obtain evs1 where
    1: "trace st1 = trace st @ evs1" "list_all P evs1" by auto
  show "\<exists>evs. trace (snd (bnd m f st)) = trace st @ evs \<and> list_all P evs"
  proof (cases r)
    case (Inl e)
    with m 1 show ?thesis by (auto simp: bnd_def)
  next
    case (Inr x)
    from emitsD[OF assms(2), of x st1] obtain evs2 where
      2: "trace (snd (f x st1)) = trace st1 @ evs2" "list_all P evs2" by auto
    with m 1 Inr have "trace (snd (bnd m f st)) = trace st @ (evs1 @ evs2)"
      by (simp add: bnd_def)
    moreover have "list_all P (evs1 @ evs2)" using 1 2 by simp
    ultimately show ?thesis by blast
  qed
qed

lemma emits_try_except:
  assumes "emits P m" and "\<And>e. emits P (h e)"
  shows "emits P (try_except m h)"
proof (rule emitsI)
  fix st
  obtain r st1 where m: "m st = (r, st1)" by (cases "m st")
  from emitsD[OF assms(1), of st] m obtain evs1 where
    1: "trace st1 = trace st @ evs1" "list_all P evs1" by auto
  show "\<exists>evs. trace (snd (try_except m h st)) = trace st @ evs \<and> list_all P evs"
  proof (cases r)
    case (Inr x)
    with m 1 show ?thesis by (auto simp: try_except_def)
  next
    case (Inl e)
    from emitsD[OF assms(2), of e st1] obtain evs2 where
      2: "trace (snd (h e st1)) = trace st1 @ evs2" "list_all P evs2" by auto
    with m 1 Inl have "trace (snd (try_except m h st)) = trace st @ (evs1 @ evs2)"
      by (simp add: try_except_def)
    moreover have "list_all P (evs1 @ evs2)" using 1 2 by simp
    ultimately show ?thesis by blast
  qed
qed

lemma emits_try_timeout: "emits P m \<Longrightarrow> emits P h \<Longrightarrow> emits P (try_timeout m h)"
  unfolding try_timeout_def by (rule emits_try_except) (simp_all add: emits_raise)

lemma emits_if: "emits P m \<Longrightarrow> emits P m' \<Longrightarrow> emits P (if b then m else m')"
  by simp

lemma emits_nav: "(\<And>u. P (EvNav u)) \<Longrightarrow> emits P (nav env url)"
  unfolding nav_def
  by (cases url) (auto intro!: emits_bnd emits_emit emits_lift emits_raise)

lemma emits_http_get: "(\<And>u. P (EvHttpGet u)) \<Longrightarrow> emits P (http_get env url)"
  unfolding http_get_def
  by (cases url) (auto intro!: emits_bnd emits_emit emits_lift emits_raise)

lemma emits_open_wb: "P (EvOpen path) \<Longrightarrow> emits P (open_wb env path)"
  by (auto simp: emits_def open_wb_def bnd_def emit_def)


lemma write_chunks_trace: "trace (snd (write_chunks path cs st)) = trace st"
  by (induction cs arbitrary: st) auto

lemma write_chunks_result: "fst (write_chunks path cs st) = Inr ()"
  by (induction cs arbitrary: st) auto

lemma emits_write_chunks: "emits P (write_chunks path cs)"
  by (simp add: emits_def write_chunks_trace)

lemma emits_save:
  "P (EvOpen path) \<Longrightarrow> emits P (save_file_with_progress env response path)"
  unfolding save_file_with_progress_def
  by (intro emits_bnd emits_open_wb emits_write_chunks)
     (auto simp: emits_ret emits_raise split: sum.splits option.splits)

lemma emits_find_download_button: "emits P (find_download_button env)"
  unfolding find_download_button_def
  by (intro emits_try_timeout emits_bnd emits_lift emits_ret)

lemma emits_direct_download:
  "(\<And>u. P (EvHttpGet u)) \<Longrightarrow> P (EvOpen path) \<Longrightarrow> emits P (direct_download env url path)"
  unfolding direct_download_def
  by (intro emits_bnd emits_http_get) (auto intro!: emits_bnd emits_save emits_ret)

lemma emits_button_download:
  "(\<And>u. P (EvHttpGet u)) \<Longrightarrow> P (EvOpen path) \<Longrightarrow> emits P (button_download env b path)"
  unfolding button_download_def raise_for_status_def
  by (intro emits_bnd emits_http_get emits_lift emits_save emits_ret)
     (auto simp: emits_ret emits_raise)

lemma emits_fetch_rest:
  "emits (\<lambda>ev. True)
     (bnd (find_download_button env) (\<lambda>button.
        case button of
          None \<Rightarrow> direct_download env file_url file_path
        | Some download_button \<Rightarrow> button_download env download_button file_path))"
  by (intro emits_bnd emits_find_download_button)
     (auto intro!: emits_direct_download emits_button_download split: option.splits)

lemma fetch_trace:
  "\<exists>evs. trace (snd (fetch env (Some url) path st)) = trace st @ EvNav url # evs"
proof -
  let ?st1 = "st\<lparr>trace := trace st @ [EvNav url]\<rparr>"
  obtain r w' where g: "driver_get env url (world st) = (r, w')"
    by (cases "driver_get env url (world st)")
  let ?st2 = "?st1\<lparr>world := w'\<rparr>"
  have n: "nav env (Some url) st = (r, ?st2)"
    using g by (simp add: nav_def bnd_def emit_def lift_def)
  show ?thesis
  proof (cases r)
    case (Inl e)
    with n show ?thesis by (simp add: fetch_def bnd_def)
  next
    case (Inr u)
    let ?rest = "bnd (find_download_button env) (\<lambda>button.
        case button of
          None \<Rightarrow> direct_download env (Some url) path
        | Some download_button \<Rightarrow> button_download env download_button path)"
    from emitsD[OF emits_fetch_rest, of env "Some url" path ?st2]
    obtain evs where "trace (snd (?rest ?st2)) = trace ?st2 @ evs" by blast
    moreover have "fetch env (Some url) path st = ?rest ?st2"
      using n Inr by (simp add: fetch_def bnd_def)
    ultimately show ?thesis by simp
  qed
qed

lemma download_file_skip:
  "skips skip_existing path st \<Longrightarrow> download_file env skip_existing url path st = (True, st)"
  by (simp add: download_file_def download_attempt_def)

lemma download_file_no_skip:
  "\<not> skips skip_existing path st \<Longrightarrow>
   download_file env skip_existing url path st =
     (case fetch env url path st of
        (Inr result, st') \<Rightarrow> (result, st')
      | (Inl e, st') \<Rightarrow> (False, snd (open_wb env path st')))"
  by (simp add: download_file_def download_attempt_def)

lemma open_wb_trace: "trace (snd (open_wb env path st)) = trace st @ [EvOpen path]"
  by (simp add: open_wb_def bnd_def emit_def)

lemma open_wb_files:
  "\<not> open_fails env path (world st) \<Longrightarrow> files (snd (open_wb env path st)) path = Some []"
  by (simp add: open_wb_def bnd_def emit_def)

lemma open_wb_files_failed:
  "open_fails env path (world st) \<Longrightarrow> files (snd (open_wb env path st)) = files st"
  by (simp add: open_wb_def bnd_def emit_def)

lemma download_file_trace:
  assumes "\<not> skips skip_existing path st"
  shows "\<exists>evs. trace (snd (download_file env skip_existing (Some url) path st)) =
           trace st @ EvNav url # evs"
proof -
  obtain r st' where f: "fetch env (Some url) path st = (r, st')"
    by (cases "fetch env (Some url) path st")
  from fetch_trace[of env url path st] f obtain evs where
    t: "trace st' = trace st @ EvNav url # evs" by auto
  show ?thesis
  proof (cases r)
    case (Inr b)
    with f t assms show ?thesis by (simp add: download_file_no_skip)
  next
    case (Inl e)
    with f t assms show ?thesis by (simp add: download_file_no_skip open_wb_trace)
  qed
qed

lemma emits_download_file:
  "emits (\<lambda>ev. True) (download_file env skip_existing url path)"
proof (rule emitsI)
  fix st
  have "list_all (\<lambda>ev. True) evs" for evs :: "event list" by (simp add: list_all_iff)
  moreover have "\<exists>evs. trace (snd (download_file env skip_existing url path st)) = trace st @ evs"
  proof (cases "skips skip_existing path st")
    case True
    then show ?thesis by (simp add: download_file_skip)
  next
    case False
    have e: "emits (\<lambda>ev. True) (fetch env url path)"
      unfolding fetch_def by (intro emits_bnd emits_nav emits_fetch_rest) simp
    obtain r st' where f: "fetch env url path st = (r, st')" by (cases "fetch env url path st")
    from emitsD[OF e, of st] f obtain evs where t: "trace st' = trace st @ evs" by auto
    show ?thesis
    proof (cases r)
      case (Inr b)
      with f t False show ?thesis by (simp add: download_file_no_skip)
    next
      case (Inl e)
      with f t False show ?thesis by (simp add: download_file_no_skip open_wb_trace)
    qed
  qed
  ultimately show "\<exists>evs. trace (snd (download_file env skip_existing url path st)) =
      trace st @ evs \<and> list_all (\<lambda>ev. True) evs" by blast
qed




























section \<open>The download fallback chain (claims C1, C2 and C10)\<close>

text \<open>
  C1: \<open>_download_file\<close> is idempotent through the files on disk.  With \<open>skip_existing\<close>
  set, a file at \<open>file_path\<close> of size greater than 0 makes it return \<open>True\<close> at once,
  with the state unchanged: no page is loaded, no transfer is started and no file is
  opened (the trace is part of the state).  A file of size 0 at \<open>file_path\<close>, the
  placeholder, is not skipped: the call does what it does with \<open>skip_existing\<close> unset, and
  begins by loading the file's page.
\<close>

theorem download_file_idempotent:
  "(files st file_path = Some content \<and> content \<noteq> [] \<longrightarrow>
      download_file env True file_url file_path st = (True, st)) \<and>
   (files st file_path = Some [] \<longrightarrow>
      download_file env True file_url file_path st =
        download_file env False file_url file_path st \<and>
      (\<exists>evs. trace (snd (download_file env True (Some url) file_path st)) =
               trace st @ EvNav url # evs))"
proof (intro conjI impI)
  assume "files st file_path = Some content \<and> content \<noteq> []"
  then have "skips True file_path st" by (simp add: skips_def)
  then show "download_file env True file_url file_path st = (True, st)"
    by (rule download_file_skip)
next
  assume "files st file_path = Some []"
  then have n: "\<not> skips True file_path st" by (simp add: skips_def)
  have "\<not> skips False file_path st" by (simp add: skips_def)
  with n show "download_file env True file_url file_path st =
      download_file env False file_url file_path st"
    by (simp add: download_file_no_skip)
next
  assume "files st file_path = Some []"
  then have "\<not> skips True file_path st" by (simp add: skips_def)
  then show "\<exists>evs. trace (snd (download_file env True (Some url) file_path st)) =
      trace st @ EvNav url # evs"
    by (rule download_file_trace)
qed

theorem download_file_idempotent_witness:
  "files (start [(''dl/x.pdf'', ''old'')]) ''dl/x.pdf'' = Some ''old'' \<and> ''old'' \<noteq> [] \<and>
   download_file (portal_env portal_tree) True (Some ''https://c.edu/files/1'') ''dl/x.pdf''
     (start [(''dl/x.pdf'', ''old'')]) = (True, start [(''dl/x.pdf'', ''old'')]) \<and>
   files (start [(''dl/x.pdf'', [])]) ''dl/x.pdf'' = Some [] \<and>
   download_file (portal_env portal_tree) True (Some ''https://c.edu/files/1'') ''dl/x.pdf''
     (start [(''dl/x.pdf'', [])]) =
   download_file (portal_env portal_tree) False (Some ''https://c.edu/files/1'') ''dl/x.pdf''
     (start [(''dl/x.pdf'', [])]) \<and>
   files (snd (download_file (portal_env portal_tree) True (Some ''https://c.edu/files/1'')
     ''dl/x.pdf'' (start [(''dl/x.pdf'', [])]))) ''dl/x.pdf'' = Some ''xx''"
proof -
  have a: "files (start [(''dl/x.pdf'', ''old'')]) ''dl/x.pdf'' = Some ''old'' \<and> ''old'' \<noteq> []"
    by (simp add: start_def)
  have b: "files (start [(''dl/x.pdf'', [])]) ''dl/x.pdf'' = Some []"
    by (simp add: start_def)
  have c: "files (snd (download_file (portal_env portal_tree) True
      (Some ''https://c.edu/files/1'') ''dl/x.pdf'' (start [(''dl/x.pdf'', [])])))
      ''dl/x.pdf'' = Some ''xx''"
    by code_simp
  from a b c
    download_file_idempotent[of "start [(''dl/x.pdf'', ''old'')]" "''dl/x.pdf''" "''old''"
      "portal_env portal_tree" "Some ''https://c.edu/files/1''"]
    download_file_idempotent[of "start [(''dl/x.pdf'', [])]" "''dl/x.pdf''" "[]"
      "portal_env portal_tree" "Some ''https://c.edu/files/1''" "''https://c.edu/files/1''"]
  show ?thesis by simp
qed

text \<open>
  C2 holds on the paths that end in the handler of \<open>_download_file\<close>, but not on the
  direct transfer: when no download button appears and the direct request is answered
  with a status other than 200, the function returns \<open>False\<close> from inside the \<open>try\<close>
  and the placeholder is never written.  On the portal below the file page has no
  button and the transfer is answered with 404: nothing is opened and no file exists
  afterwards.  With the same answer behind a download button, \<open>raise_for_status\<close> leads
  to the handler and the placeholder is written.
\<close>

theorem direct_transfer_404_writes_no_placeholder:
  "fst (download_file (portal_env portal_direct_404) True (Some ''https://c.edu/files/7'')
          ''dl/x.pdf'' (start [])) = False \<and>
   files (snd (download_file (portal_env portal_direct_404) True
          (Some ''https://c.edu/files/7'') ''dl/x.pdf'' (start []))) ''dl/x.pdf'' = None \<and>
   trace (snd (download_file (portal_env portal_direct_404) True
          (Some ''https://c.edu/files/7'') ''dl/x.pdf'' (start []))) =
     [EvNav ''https://c.edu/files/7'', EvHttpGet ''https://c.edu/files/7''] \<and>
   fst (download_file (portal_env portal_button_404) True (Some ''https://c.edu/files/7'')
          ''dl/x.pdf'' (start [])) = False \<and>
   files (snd (download_file (portal_env portal_button_404) True
          (Some ''https://c.edu/files/7'') ''dl/x.pdf'' (start []))) ''dl/x.pdf'' = Some []"
  by code_simp

text \<open>
  C10, as stated, fails where the handler cannot open the file: the handler of
  \<open>_download_file\<close> creates the placeholder inside a \<open>try\<close> of its own, and when
  \<open>open(file_path, "wb")\<close> raises (here the path is not writable) the error is logged
  and the file keeps its content, while \<open>False\<close> is returned.
\<close>

theorem download_file_keeps_unwritable_counterexample:
  "files (start [(''dl/x.pdf'', ''old'')]) ''dl/x.pdf'' = Some ''old'' \<and>
   fst (fetch (portal_env portal_unwritable) (Some ''https://c.edu/files/7'') ''dl/x.pdf''
          (start [(''dl/x.pdf'', ''old'')])) = Inl HTTPError \<and>
   fst (download_file (portal_env portal_unwritable) False (Some ''https://c.edu/files/7'')
          ''dl/x.pdf'' (start [(''dl/x.pdf'', ''old'')])) = False \<and>
   files (snd (download_file (portal_env portal_unwritable) False
          (Some ''https://c.edu/files/7'') ''dl/x.pdf'' (start [(''dl/x.pdf'', ''old'')])))
     ''dl/x.pdf'' = Some ''old''"
  by code_simp

text \<open>
  C10 (amended): \<open>_download_file\<close> is not atomic on error.  Let a file exist at
  \<open>file_path\<close>, with \<open>skip_existing\<close> unset or the file of size 0, and let the attempt
  end with an exception.  Then \<open>False\<close> is returned and the handler opens \<open>file_path\<close>
  for writing: when that open succeeds, a file of size 0 is left there and what the file
  held before is gone; when the open itself fails, the file is left as the failed attempt
  left it.
\<close>

theorem download_file_truncates_on_error:
  assumes "files st file_path = Some content"
    and "\<not> skip_existing \<or> content = []"
    and "fetch env file_url file_path st = (Inl e, st')"
  shows "fst (download_file env skip_existing file_url file_path st) = False \<and>
         files (snd (download_file env skip_existing file_url file_path st)) file_path =
           (if open_fails env file_path (world st') then files st' file_path else Some [])"
proof -
  from assms(1,2) have "\<not> skips skip_existing file_path st" by (auto simp: skips_def)
  then have "download_file env skip_existing file_url file_path st =
      (False, snd (open_wb env file_path st'))"
    by (simp add: download_file_no_skip assms(3))
  then show ?thesis by (simp add: open_wb_files open_wb_files_failed)
qed

theorem download_file_truncates_on_error_witness:
  "files (start [(''dl/x.pdf'', ''old'')]) ''dl/x.pdf'' = Some ''old'' \<and>
   fst (fetch (portal_env portal_button_404) (Some ''https://c.edu/files/7'') ''dl/x.pdf''
          (start [(''dl/x.pdf'', ''old'')])) = Inl HTTPError \<and>
   fst (download_file (portal_env portal_button_404) False (Some ''https://c.edu/files/7'')
          ''dl/x.pdf'' (start [(''dl/x.pdf'', ''old'')])) = False \<and>
   files (snd (download_file (portal_env portal_button_404) False
          (Some ''https://c.edu/files/7'') ''dl/x.pdf'' (start [(''dl/x.pdf'', ''old'')])))
     ''dl/x.pdf'' = Some []"
proof -
  let ?env = "portal_env portal_button_404"
  let ?url = "Some ''https://c.edu/files/7''"
  let ?st = "start [(''dl/x.pdf'', ''old'')]"
  let ?att = "fetch ?env ?url ''dl/x.pdf'' ?st"
  have a: "files ?st ''dl/x.pdf'' = Some ''old''" by (simp add: start_def)
  have b: "fst ?att = Inl HTTPError" by code_simp
  then have c: "?att = (Inl HTTPError, snd ?att)" by (metis prod.collapse)
  have d: "\<not> open_fails ?env ''dl/x.pdf'' (world (snd ?att))"
    by (simp add: portal_env_def portal_button_404_def empty_portal_def)
  from download_file_truncates_on_error[OF a _ c, of False] a b d show ?thesis by simp
qed



section \<open>Course discovery (claim C5)\<close>

lemma call_run:
  "f (world st) = (x, w') \<Longrightarrow>
   call name f st = (Inr x, st\<lparr>world := w', trace := trace st @ [EvCall name]\<rparr>)"
  by (simp add: call_def bnd_def emit_def lift_def)

lemma nav_run:
  "driver_get env u (world st) = (r, w') \<Longrightarrow>
   nav env (Some u) st = (r, st\<lparr>world := w', trace := trace st @ [EvNav u]\<rparr>)"
  by (simp add: nav_def bnd_def emit_def lift_def)

text \<open>
  C5: \<open>get_courses\<close> loads the courses page and then tries the dashboard cards, the table
  of all courses and the list view, in this order.  It returns the result of the first
  strategy that yields a non-empty list, as that strategy produced it, and calls no
  later strategy (the trace and the world are those left by the strategies called so
  far); when the first two yield nothing it returns whatever the list view yields.  In
  particular, with no dashboard course and some table courses, exactly the table's
  courses are returned, in table order.  (When the loading of the courses page itself
  raises, the handler of \<open>get_courses\<close> returns the empty list and no strategy is
  called.)
\<close>

theorem get_courses_cascade:
  assumes "driver_get env (canvas_url env @ ''/courses'') (world st) = (r, w1)"
    and "courses_from_dashboard env w1 = (d, w2)"
    and "courses_from_all_courses_table env w2 = (t, w3)"
    and "courses_from_list_view env w3 = (l, w4)"
  shows "get_courses env st =
     (case r of
        Inl e \<Rightarrow> ([], st\<lparr>world := w1, trace := trace st @ [EvNav (canvas_url env @ ''/courses'')]\<rparr>)
      | Inr u \<Rightarrow>
      if d \<noteq> [] then
        (d, st\<lparr>world := w2,
               trace := trace st @ [EvNav (canvas_url env @ ''/courses''),
                                    EvCall ''_get_courses_from_dashboard'']\<rparr>)
      else if t \<noteq> [] then
        (t, st\<lparr>world := w3,
               trace := trace st @ [EvNav (canvas_url env @ ''/courses''),
                                    EvCall ''_get_courses_from_dashboard'',
                                    EvCall ''_get_courses_from_all_courses_table'']\<rparr>)
      else
        (l, st\<lparr>world := w4,
               trace := trace st @ [EvNav (canvas_url env @ ''/courses''),
                                    EvCall ''_get_courses_from_dashboard'',
                                    EvCall ''_get_courses_from_all_courses_table'',
                                    EvCall ''_get_courses_from_list_view'']\<rparr>))"
proof -
  let ?u = "canvas_url env @ ''/courses''"
  let ?st1 = "st\<lparr>world := w1, trace := trace st @ [EvNav ?u]\<rparr>"
  let ?st2 = "?st1\<lparr>world := w2, trace := trace ?st1 @ [EvCall ''_get_courses_from_dashboard'']\<rparr>"
  let ?st3 = "?st2\<lparr>world := w3,
                   trace := trace ?st2 @ [EvCall ''_get_courses_from_all_courses_table'']\<rparr>"
  have n: "nav env (Some ?u) st = (r, ?st1)" by (rule nav_run[OF assms(1)])
  have c1: "call ''_get_courses_from_dashboard'' (courses_from_dashboard env) ?st1 =
      (Inr d, ?st2)"
    by (rule call_run) (simp add: assms(2))
  have c2: "call ''_get_courses_from_all_courses_table'' (courses_from_all_courses_table env)
      ?st2 = (Inr t, ?st3)"
    by (rule call_run) (simp add: assms(3))
  have c3: "call ''_get_courses_from_list_view'' (courses_from_list_view env) ?st3 =
      (Inr l, ?st3\<lparr>world := w4,
                    trace := trace ?st3 @ [EvCall ''_get_courses_from_list_view'']\<rparr>)"
    by (rule call_run) (simp add: assms(4))
  show ?thesis
  proof (cases r)
    case (Inl e)
    with n show ?thesis by (simp add: get_courses_def bnd_def)
  next
    case (Inr u)
    show ?thesis
    proof (cases "d \<noteq> []")
      case True
      with Inr n c1 show ?thesis by (simp add: get_courses_def bnd_def ret_def)
    next
      case False
      show ?thesis
      proof (cases "t \<noteq> []")
        case True
        with Inr False n c1 c2 show ?thesis by (simp add: get_courses_def bnd_def ret_def)
      next
        case f2: False
        with Inr False n c1 c2 c3 show ?thesis by (simp add: get_courses_def bnd_def ret_def)
      qed
    qed
  qed
qed

theorem get_courses_cascade_witness:
  "fst (get_courses (portal_env portal_two_courses) (start [])) = two_courses \<and>
   trace (snd (get_courses (portal_env portal_two_courses) (start []))) =
     [EvNav ''https://c.edu/courses'', EvCall ''_get_courses_from_dashboard'',
      EvCall ''_get_courses_from_all_courses_table'']"
proof -
  let ?env = "portal_env portal_two_courses"
  let ?w1 = "load ''https://c.edu/courses'' (world (start []))"
  have 1: "driver_get ?env (canvas_url ?env @ ''/courses'') (world (start [])) = (Inr (), ?w1)"
    by (simp add: portal_env_def portal_get_def portal_two_courses_def empty_portal_def)
  have 2: "courses_from_dashboard ?env ?w1 = ([], ?w1)"
    by (simp add: portal_env_def portal_two_courses_def empty_portal_def)
  have 3: "courses_from_all_courses_table ?env ?w1 =
      (two_courses, load ''https://c.edu/courses/all_courses'' ?w1)"
    by (simp add: portal_env_def portal_two_courses_def empty_portal_def)
  have 4: "courses_from_list_view ?env (load ''https://c.edu/courses/all_courses'' ?w1) =
      ([], load ''https://c.edu/courses/all_courses'' ?w1)"
    by (simp add: portal_env_def portal_two_courses_def empty_portal_def)
  have 5: "two_courses \<noteq> []" by (simp add: two_courses_def)
  have 6: "canvas_url ?env = ''https://c.edu''" by (simp add: portal_env_def)
  from get_courses_cascade[OF 1 2 3 4] 5 6 show ?thesis by (simp add: start_def)
qed


section \<open>The run over the courses (claim C4)\<close>

lemma process_courses_Cons:
  "process_courses depth env skip_existing (c # cs) st =
     (case process_course depth env skip_existing c
             (st\<lparr>trace := trace st @ [EvCall (''process_course '' @ c_id c)]\<rparr>) of
        None \<Rightarrow> None
      | Some (Inl e, st') \<Rightarrow> Some (Inl e, st')
      | Some (Inr u, st') \<Rightarrow> process_courses depth env skip_existing cs st')"
  by (simp add: bndo_def total_def emit_def)

text \<open>
  C4 asks that an exception raised while a course is processed ends the processing of
  that course only.  In \<open>run\<close> the call of \<open>process_course\<close> stands unguarded in the
  loop, and \<open>_process_course_homepage\<close> loads the homepage outside any \<open>try\<close>, so the
  exception leaves the loop and reaches the handler of \<open>run\<close>, which returns \<open>False\<close>.
  With two courses found by the table strategy, of which the first has a homepage that
  fails to load, the run ends after that page load and the second course is never
  processed, whatever the depth allowed to the traversal; on the same portal without
  the failure the loop processes both courses.
\<close>

theorem run_stops_at_failing_course:
  "fst (get_courses (portal_env portal_broken_course) (start [])) = two_courses \<and>
   map_option fst (run depth (portal_env portal_broken_course) True (start [])) = Some False \<and>
   map_option (trace \<circ> snd) (run depth (portal_env portal_broken_course) True (start [])) =
     Some [EvMkdir ''dl'', EvNav ''https://c.edu/courses'',
           EvCall ''_get_courses_from_dashboard'',
           EvCall ''_get_courses_from_all_courses_table'',
           EvCall ''process_course 1'', EvMkdir ''dl/Algebra'',
           EvNav ''https://c.edu/courses/1'', EvQuit] \<and>
   map_option (trace \<circ> snd)
     (process_courses depth (portal_env portal_two_courses) True two_courses (start [])) =
     Some [EvCall ''process_course 1'', EvMkdir ''dl/Algebra'',
           EvNav ''https://c.edu/courses/1'', EvNav ''https://c.edu/courses/1/modules'',
           EvNav ''https://c.edu/courses/1/files'',
           EvCall ''process_course 2'', EvMkdir ''dl/Logic'',
           EvNav ''https://c.edu/courses/2'', EvNav ''https://c.edu/courses/2/modules'',
           EvNav ''https://c.edu/courses/2/files'']"
proof -
  let ?env = "portal_env portal_two_courses"
  let ?c1 = "\<lparr>c_id = ''1'', c_name = ''Algebra'', c_url = ''https://c.edu/courses/1''\<rparr>"
  let ?c2 = "\<lparr>c_id = ''2'', c_name = ''Logic'', c_url = ''https://c.edu/courses/2''\<rparr>"
  let ?A = "process_course depth ?env True ?c1
              ((start [])\<lparr>trace := trace (start []) @ [EvCall (''process_course '' @ c_id ?c1)]\<rparr>)"
  have broken: "fst (get_courses (portal_env portal_broken_course) (start [])) = two_courses \<and>
     map_option fst (run depth (portal_env portal_broken_course) True (start [])) = Some False \<and>
     map_option (trace \<circ> snd) (run depth (portal_env portal_broken_course) True (start [])) =
       Some [EvMkdir ''dl'', EvNav ''https://c.edu/courses'',
             EvCall ''_get_courses_from_dashboard'',
             EvCall ''_get_courses_from_all_courses_table'',
             EvCall ''process_course 1'', EvMkdir ''dl/Algebra'',
             EvNav ''https://c.edu/courses/1'', EvQuit]"
    by code_simp
  have "map_option fst ?A = Some (Inr ())" by code_simp
  then have A: "?A = Some (Inr (), snd (the ?A))" by (cases ?A) auto
  have "process_courses depth ?env True [?c1, ?c2] (start []) =
      process_courses depth ?env True [?c2] (snd (the ?A))"
    by (subst process_courses_Cons, subst A) (simp only: option.case prod.case sum.case)
  moreover have "map_option (trace \<circ> snd)
      (process_courses depth ?env True [?c2] (snd (the ?A))) =
     Some [EvCall ''process_course 1'', EvMkdir ''dl/Algebra'',
           EvNav ''https://c.edu/courses/1'', EvNav ''https://c.edu/courses/1/modules'',
           EvNav ''https://c.edu/courses/1/files'',
           EvCall ''process_course 2'', EvMkdir ''dl/Logic'',
           EvNav ''https://c.edu/courses/2'', EvNav ''https://c.edu/courses/2/modules'',
           EvNav ''https://c.edu/courses/2/files'']"
    by code_simp
  ultimately have good: "map_option (trace \<circ> snd)
      (process_courses depth ?env True two_courses (start [])) =
     Some [EvCall ''process_course 1'', EvMkdir ''dl/Algebra'',
           EvNav ''https://c.edu/courses/1'', EvNav ''https://c.edu/courses/1/modules'',
           EvNav ''https://c.edu/courses/1/files'',
           EvCall ''process_course 2'', EvMkdir ''dl/Logic'',
           EvNav ''https://c.edu/courses/2'', EvNav ''https://c.edu/courses/2/modules'',
           EvNav ''https://c.edu/courses/2/files'']"
    by (simp only: two_courses_def)
  from broken good show ?thesis by (rule conjI[THEN conjI[THEN conjI]] | blast)+
qed



section \<open>The folder traversal (claim C6)\<close>




end
